theory Spec2Isabelle
  imports Complex_Main "HOL-Library.Multiset" "HOL-Library.Char_ord" "HOL-Library.List_Lexorder"
begin

section \<open>Values decoded from the catalog response\<close>

text \<open>
  The service handles whatever \<^verbatim>\<open>JSON.parse\<close> returned (\<^verbatim>\<open>any\<close> in the source).
  An object is the list of its own properties in enumeration order, with distinct keys.
  A number is carried by the text that \<^verbatim>\<open>String(n)\<close> gives for it: the service only
  stringifies numbers and tests them for truthiness. A string is the sequence of its
  UTF-8 bytes: an ASCII character is one byte below 128, any other character is made of
  bytes from 128 up, so that looking for ASCII characters in the bytes is looking for them
  in the characters.
\<close>

datatype json =
    JNull
  | JBool bool
  | JNum string
  | JStr string
  | JArr "json list"
  | JObj "(string \<times> json) list"

datatype error = TypeError | UnableToConnect | NoProductList | NoValidHex

text \<open>Truthiness of a value; \<open>None\<close> stands for \<^verbatim>\<open>undefined\<close>.\<close>

fun truthy :: "json option \<Rightarrow> bool" where
  "truthy None = False"
| "truthy (Some JNull) = False"
| "truthy (Some (JBool b)) = b"
| "truthy (Some (JNum s)) = (s \<noteq> ''0'')"
| "truthy (Some (JStr s)) = (s \<noteq> [])"
| "truthy (Some (JArr xs)) = True"
| "truthy (Some (JObj kvs)) = True"

text \<open>The operator \<^verbatim>\<open>a || b\<close>.\<close>

definition lor :: "json option \<Rightarrow> json option \<Rightarrow> json option" where
  "lor a b = (if truthy a then a else b)"

text \<open>
  Reading a property \<^verbatim>\<open>v.k\<close>, for the keys the service reads. An object, an array,
  a number and a boolean inherit none of them, so only own properties of objects are
  found. A string inherits one, the method \<^verbatim>\<open>link\<close>; it would only become the url of a
  string record, and a string record has no hex and is never handed over.
\<close>

fun field :: "json \<Rightarrow> string \<Rightarrow> json option" where
  "field (JObj kvs) k = map_of kvs k"
| "field v k = None"

text \<open>
  \<^verbatim>\<open>String(v)\<close> and \<^verbatim>\<open>v.toString()\<close>. An object with an own property
  \<^verbatim>\<open>toString\<close> (never callable in decoded JSON) cannot be converted; an array joins
  its elements with commas, \<^verbatim>\<open>null\<close> elements giving the empty string.
\<close>

fun toString :: "json \<Rightarrow> error + string"
  and join :: "json list \<Rightarrow> error + string" where
  "toString JNull = Inr ''null''"
| "toString (JBool b) = Inr (if b then ''true'' else ''false'')"
| "toString (JNum s) = Inr s"
| "toString (JStr s) = Inr s"
| "toString (JArr xs) = join xs"
| "toString (JObj kvs) =
     (if ''toString'' \<in> fst ` set kvs then Inl TypeError else Inr ''[object Object]'')"
| "join [] = Inr []"
| "join (x # xs) =
     (case (if x = JNull then Inr [] else toString x) of
        Inl e \<Rightarrow> Inl e
      | Inr s \<Rightarrow> (if xs = [] then Inr s
                 else (case join xs of Inl e \<Rightarrow> Inl e | Inr t \<Rightarrow> Inr (s @ CHR '','' # t))))"

section \<open>String helpers\<close>

text \<open>
  The methods of \<^verbatim>\<open>String.prototype\<close> whose result depends on the Unicode tables are
  taken from the host: the model fixes nothing about them.
\<close>

record host =
  toUpperCase :: "string \<Rightarrow> string"
  toLowerCase :: "string \<Rightarrow> string"
  trim :: "string \<Rightarrow> string"

fun startsWith :: "string \<Rightarrow> string \<Rightarrow> bool" where
  "startsWith s [] = True"
| "startsWith [] (c # cs) = False"
| "startsWith (x # xs) (c # cs) = (x = c \<and> startsWith xs cs)"

fun includes_str :: "string \<Rightarrow> string \<Rightarrow> bool" where
  "includes_str [] t = (t = [])"
| "includes_str (x # xs) t = (startsWith (x # xs) t \<or> includes_str xs t)"

definition is_hex_digit :: "char \<Rightarrow> bool" where
  "is_hex_digit c =
     (let n = of_char c :: nat
      in (48 \<le> n \<and> n \<le> 57) \<or> (97 \<le> n \<and> n \<le> 102) \<or> (65 \<le> n \<and> n \<le> 70))"

definition hex_digit_val :: "char \<Rightarrow> nat" where
  "hex_digit_val c =
     (let n = of_char c :: nat
      in if 48 \<le> n \<and> n \<le> 57 then n - 48
         else if 97 \<le> n \<and> n \<le> 102 then n - 87
         else if 65 \<le> n \<and> n \<le> 70 then n - 55
         else 0)"

text \<open>\<^verbatim>\<open>parseInt(s, 16)\<close> on a string of hex digits.\<close>

definition parseInt16 :: "string \<Rightarrow> nat" where
  "parseInt16 s = foldl (\<lambda>acc c. 16 * acc + hex_digit_val c) 0 s"

text \<open>\<^verbatim>\<open>str.toLowerCase().replace(/[^a-z0-9]/g, '')\<close>; a non-string has no such method.\<close>

definition is_lower_alnum :: "char \<Rightarrow> bool" where
  "is_lower_alnum c =
     (let n = of_char c :: nat in (97 \<le> n \<and> n \<le> 122) \<or> (48 \<le> n \<and> n \<le> 57))"

definition normalize :: "host \<Rightarrow> json \<Rightarrow> error + string" where
  "normalize h v =
     (case v of
        JStr s \<Rightarrow> Inr (filter is_lower_alnum (toLowerCase h s))
      | _ \<Rightarrow> Inl TypeError)"

section \<open>Category classifier\<close>

text \<open>\<^verbatim>\<open>(val || "").toUpperCase()\<close>: only a string has the method.\<close>

definition upper_or_empty :: "host \<Rightarrow> json \<Rightarrow> error + string" where
  "upper_or_empty h val =
     (case lor (Some val) (Some (JStr [])) of
        Some (JStr s) \<Rightarrow> Inr (toUpperCase h s)
      | _ \<Rightarrow> Inl TypeError)"

definition category_tests :: "string \<Rightarrow> string \<Rightarrow> string" where
  "category_tests v n =
     (if includes_str v ''PLA'' \<or> includes_str n ''PLA'' then ''PLA''
      else if includes_str v ''PETG'' \<or> includes_str n ''PETG'' then ''PETG''
      else if includes_str v ''ABS'' \<or> includes_str n ''ABS'' then ''ABS''
      else if includes_str v ''ASA'' \<or> includes_str n ''ASA'' then ''ASA''
      else if includes_str v ''TPU'' \<or> includes_str v ''FLEX'' \<or> includes_str n ''TPU'' then ''TPU''
      else if includes_str v ''NYLON'' \<or> includes_str v ''PA6'' \<or> includes_str v ''PA12''
              \<or> includes_str n ''NYLON'' then ''Nylon''
      else if includes_str v ''PC'' \<or> includes_str n ''PC'' then ''PC''
      else if includes_str v ''PVB'' \<or> includes_str n ''PVB'' then ''PVB''
      else if includes_str v ''WOOD'' \<or> includes_str n ''WOOD'' then ''Wood''
      else ''Other'')"

definition parseCategory :: "host \<Rightarrow> json \<Rightarrow> json \<Rightarrow> error + string" where
  "parseCategory h val productName =
     (case upper_or_empty h val of
        Inl e \<Rightarrow> Inl e
      | Inr v \<Rightarrow> (case upper_or_empty h productName of
                   Inl e \<Rightarrow> Inl e
                 | Inr n \<Rightarrow> Inr (category_tests v n)))"

section \<open>Response decoder\<close>

text \<open>\<^verbatim>\<open>Array.isArray(obj.k)\<close>, with the array that is then returned.\<close>

definition array_prop :: "json \<Rightarrow> string \<Rightarrow> json list option" where
  "array_prop obj k = (case field obj k of Some (JArr xs) \<Rightarrow> Some xs | _ \<Rightarrow> None)"

text \<open>\<^verbatim>\<open>typeof v === 'object' && v !== null\<close>\<close>

definition is_object :: "json \<Rightarrow> bool" where
  "is_object v = (case v of JObj kvs \<Rightarrow> True | JArr xs \<Rightarrow> True | _ \<Rightarrow> False)"

definition looks_like_product :: "json \<Rightarrow> bool" where
  "looks_like_product first =
     truthy (lor (field first ''product_name'')
            (lor (field first ''name'')
            (lor (field first ''hex_code'')
            (lor (field first ''hex'') (field first ''color_name'')))))"

definition findArrayInObject :: "json \<Rightarrow> json list option" where
  "findArrayInObject obj =
     (if \<not> truthy (Some obj) then None
      else case obj of
        JArr xs \<Rightarrow> Some xs
      | JObj kvs \<Rightarrow>
          (case array_prop obj ''data'' of Some xs \<Rightarrow> Some xs | None \<Rightarrow>
          (case array_prop obj ''products'' of Some xs \<Rightarrow> Some xs | None \<Rightarrow>
          (case array_prop obj ''items'' of Some xs \<Rightarrow> Some xs | None \<Rightarrow>
          (let values = map snd kvs
           in case values of
                [] \<Rightarrow> None
              | first # rest \<Rightarrow>
                  if is_object first \<and> looks_like_product first then Some values else None))))
      | _ \<Rightarrow> None)"

section \<open>Acquisition strategy chain\<close>

text \<open>
  Each strategy either throws (\<open>None\<close>) or returns a decoded value. The chain tries
  AllOrigins, then the direct request, then CORSProxy, and throws when all three threw.
\<close>

definition fetchJsonRobust :: "json option \<Rightarrow> json option \<Rightarrow> json option \<Rightarrow> error + json" where
  "fetchJsonRobust tryAllOrigins tryDirect tryCorsProxy =
     (case tryAllOrigins of Some v \<Rightarrow> Inr v | None \<Rightarrow>
     (case tryDirect of Some v \<Rightarrow> Inr v | None \<Rightarrow>
     (case tryCorsProxy of Some v \<Rightarrow> Inr v | None \<Rightarrow> Inl UnableToConnect)))"

section \<open>Record normalizer and ingestion loop\<close>

text \<open>
  The fields of an emitted product hold whatever value the record had: only
  \<open>p_id\<close>, \<open>p_category\<close>, \<open>p_hex\<close> and \<open>p_td\<close> are strings by construction.
\<close>

record product =
  p_id :: string
  p_product :: json
  p_name :: json
  p_category :: string
  p_hex :: string
  p_url :: json
  p_td :: "string option"

datatype status = Connecting | Processing nat | Loaded nat | Done

datatype event = Progress status nat | ProductFound product | Yield

text \<open>\<^verbatim>\<open>a || "default"\<close> with a non-empty default.\<close>

definition or_default :: "json option \<Rightarrow> json \<Rightarrow> json" where
  "or_default a d = (case a of Some v \<Rightarrow> if truthy a then v else d | None \<Rightarrow> d)"

text \<open>\<^verbatim>\<open>v !== undefined && v !== null && v !== ""\<close>\<close>

definition present :: "json option \<Rightarrow> bool" where
  "present v = (v \<noteq> None \<and> v \<noteq> Some JNull \<and> v \<noteq> Some (JStr []))"

definition resolve_td :: "json \<Rightarrow> error + string option" where
  "resolve_td item =
     (let td = (if present (field item ''transmission_distance'')
                then map_option toString (field item ''transmission_distance'')
                else if present (field item ''td'')
                then map_option toString (field item ''td'')
                else None)
      in case td of
           None \<Rightarrow> Inr None
         | Some (Inl e) \<Rightarrow> Inl e
         | Some (Inr s) \<Rightarrow> Inr (if s = ''null'' then None else Some s))"

definition resolve_hex :: "host \<Rightarrow> json \<Rightarrow> error + string option" where
  "resolve_hex h item =
     (let rawHex = lor (field item ''hex_code'') (lor (field item ''hex'')
                  (lor (field item ''hexcodes'') (lor (field item ''color_hex'')
                  (lor (field item ''color_code'') (field item ''value'')))))
      in case rawHex of
           None \<Rightarrow> Inr None
         | Some v \<Rightarrow>
             if truthy rawHex
             then (case toString v of Inl e \<Rightarrow> Inl e | Inr s \<Rightarrow> Inr (Some (trim h s)))
             else Inr None)"

text \<open>The validation pattern \<^verbatim>\<open>/^#([0-9A-F]{3,8})$/i\<close>.\<close>

definition valid_hex :: "string \<Rightarrow> bool" where
  "valid_hex h =
     (case h of
        [] \<Rightarrow> False
      | c # ds \<Rightarrow> c = CHR ''#'' \<and> 3 \<le> length ds \<and> length ds \<le> 8 \<and> list_all is_hex_digit ds)"

definition derived_id :: "host \<Rightarrow> json \<Rightarrow> json \<Rightarrow> error + string" where
  "derived_id h product name =
     (case normalize h product of
        Inl e \<Rightarrow> Inl e
      | Inr a \<Rightarrow> (case normalize h name of Inl e \<Rightarrow> Inl e | Inr b \<Rightarrow> Inr (a @ ''-'' @ b)))"

definition make_id :: "host \<Rightarrow> json \<Rightarrow> json \<Rightarrow> json \<Rightarrow> error + string" where
  "make_id h item product name =
     (case field item ''id'' of
        Some v \<Rightarrow> if truthy (Some v) then toString v else derived_id h product name
      | None \<Rightarrow> derived_id h product name)"

text \<open>
  The part of the loop body before the duplicate check: the entity a record would
  give, \<open>None\<close> when the record has no usable hex, or the exception it throws.
\<close>

definition candidate :: "host \<Rightarrow> json \<Rightarrow> error + product option" where
  "candidate h item =
     (let product = or_default (lor (field item ''product_name'')
                      (lor (field item ''product'') (field item ''title''))) (JStr ''Unknown Product'');
          name = or_default (lor (field item ''color_name'')
                      (lor (field item ''name'') (field item ''color''))) (JStr ''Unknown Color'');
          rawCategoryField = or_default (lor (field item ''material'')
                      (lor (field item ''material_type'')
                      (lor (field item ''category'') (field item ''type'')))) (JStr [])
      in case parseCategory h rawCategoryField product of
           Inl e \<Rightarrow> Inl e
         | Inr category \<Rightarrow>
      (let url = or_default (lor (field item ''product_url'')
                      (lor (field item ''url'') (field item ''link'')))
                      (JStr ''https://us.polymaker.com'')
       in case resolve_td item of
            Inl e \<Rightarrow> Inl e
          | Inr td \<Rightarrow>
       (case resolve_hex h item of
            Inl e \<Rightarrow> Inl e
          | Inr None \<Rightarrow> Inr None
          | Inr (Some trimmed) \<Rightarrow>
              if trimmed = [] then Inr None
              else (let hex = (if startsWith trimmed ''#'' then trimmed
                               else CHR ''#'' # trimmed)
                    in if valid_hex hex
                       then (case make_id h item product name of
                               Inl e \<Rightarrow> Inl e
                             | Inr i \<Rightarrow> Inr (Some \<lparr>p_id = i, p_product = product, p_name = name,
                                                   p_category = category, p_hex = hex,
                                                   p_url = url, p_td = td\<rparr>))
                       else Inr None))))"

record ingest =
  emitted_count :: nat
  processedIds :: "string set"
  trace :: "event list"

definition emit :: "ingest \<Rightarrow> product option \<Rightarrow> ingest" where
  "emit st c =
     (case c of
        None \<Rightarrow> st
      | Some p \<Rightarrow>
          if p_id p \<in> processedIds st then st
          else st\<lparr>emitted_count := emitted_count st + 1,
                  processedIds := insert (p_id p) (processedIds st),
                  trace := trace st @ [ProductFound p]\<rparr>)"

definition report :: "ingest \<Rightarrow> ingest" where
  "report st =
     (if emitted_count st mod 20 = 0
      then st\<lparr>trace := trace st @ [Progress (Loaded (emitted_count st)) (emitted_count st), Yield]\<rparr>
      else st)"

definition loop_body :: "host \<Rightarrow> ingest \<Rightarrow> json \<Rightarrow> error + ingest" where
  "loop_body h st item =
     (if \<not> truthy (Some item) then Inr st
      else case candidate h item of
             Inl e \<Rightarrow> Inl e
           | Inr c \<Rightarrow> Inr (report (emit st c)))"

text \<open>The loop returns the state it reached and the exception that stopped it, if any.\<close>

fun process_items :: "host \<Rightarrow> ingest \<Rightarrow> json list \<Rightarrow> ingest \<times> error option" where
  "process_items h st [] = (st, None)"
| "process_items h st (item # items) =
     (case loop_body h st item of
        Inl e \<Rightarrow> (st, Some e)
      | Inr st' \<Rightarrow> process_items h st' items)"

text \<open>The run: the callbacks invoked, in order, and how the promise settles.\<close>

definition fetchPolymakerData ::
  "host \<Rightarrow> json option \<Rightarrow> json option \<Rightarrow> json option \<Rightarrow> event list \<times> (error + unit)"
  where
  "fetchPolymakerData h tryAllOrigins tryDirect tryCorsProxy =
     (let t0 = [Progress Connecting 0]
      in case fetchJsonRobust tryAllOrigins tryDirect tryCorsProxy of
           Inl e \<Rightarrow> (t0, Inl e)
         | Inr rawData \<Rightarrow>
      (case findArrayInObject rawData of
           None \<Rightarrow> (t0, Inl NoProductList)
         | Some items \<Rightarrow>
             if items = [] then (t0, Inl NoProductList)
             else (case process_items h
                          \<lparr>emitted_count = 0, processedIds = {},
                           trace = t0 @ [Progress (Processing (length items)) 0]\<rparr> items of
                     (st, Some e) \<Rightarrow> (trace st, Inl e)
                   | (st, None) \<Rightarrow>
                       if emitted_count st = 0 then (trace st, Inl NoValidHex)
                       else (trace st @ [Progress Done (emitted_count st)], Inr ()))))"

section \<open>Hex utility of the scene\<close>

text \<open>The optional leading \<^verbatim>\<open>#\<close> of both patterns.\<close>

definition strip_hash :: "string \<Rightarrow> string" where
  "strip_hash s = (case s of [] \<Rightarrow> s | c # cs \<Rightarrow> if c = CHR ''#'' then cs else s)"

text \<open>
  \<^verbatim>\<open>hex.replace(/^#?([a-f\d])([a-f\d])([a-f\d])$/i, (m, r, g, b) => r + r + g + g + b + b)\<close>:
  the pattern covers the whole string, so a match is replaced by the six digits alone.
\<close>

definition expand_shorthand :: "string \<Rightarrow> string" where
  "expand_shorthand hex =
     (case strip_hash hex of
        [r, g, b] \<Rightarrow>
          if is_hex_digit r \<and> is_hex_digit g \<and> is_hex_digit b then [r, r, g, g, b, b] else hex
      | _ \<Rightarrow> hex)"

text \<open>
  \<^verbatim>\<open>/^#?([a-f\d]{2})([a-f\d]{2})([a-f\d]{2})$/i.exec(fullHex)\<close>: the three captured
  groups, or \<open>None\<close> for \<^verbatim>\<open>null\<close>.
\<close>

definition exec_hex6 :: "string \<Rightarrow> (string \<times> string \<times> string) option" where
  "exec_hex6 fullHex =
     (case strip_hash fullHex of
        [r1, r2, g1, g2, b1, b2] \<Rightarrow>
          if list_all is_hex_digit [r1, r2, g1, g2, b1, b2]
          then Some ([r1, r2], [g1, g2], [b1, b2]) else None
      | _ \<Rightarrow> None)"

datatype rgb = Rgb (rgb_r: nat) (rgb_g: nat) (rgb_b: nat)

definition hexToRgb :: "string \<Rightarrow> rgb" where
  "hexToRgb hex =
     (case exec_hex6 (expand_shorthand hex) of
        Some (r, g, b) \<Rightarrow> Rgb (parseInt16 r) (parseInt16 g) (parseInt16 b)
      | None \<Rightarrow> Rgb 0 0 0)"

section \<open>Clustering engine\<close>

text \<open>
  Coordinates are the real values of the doubles. Each arithmetic operation of the
  engine gives the exact result rounded to a double; the rounding \<open>fl\<close> is taken from
  the host. \<^verbatim>\<open>localeCompare\<close> is the collation of the host: a consistent comparator orders
  strings by a sort key \<open>collate\<close> into a linear order, under which different strings
  may compare equal; \<^verbatim>\<open>Array.prototype.sort\<close> is stable.
\<close>

datatype item = Item (i_product: product) (i_x: real) (i_y: real) (i_z: real)

datatype cluster = Cluster (c_products: "product list") (c_x: real) (c_y: real) (c_z: real)

definition to_item :: "product \<Rightarrow> item" where
  "to_item p = (let rgb = hexToRgb (p_hex p)
                in Item p (real (rgb_r rgb)) (real (rgb_g rgb)) (real (rgb_b rgb)))"

text \<open>\<^verbatim>\<open>Math.sqrt(dx * dx + dy * dy + dz * dz)\<close>, the sum taken from the left.\<close>

definition distance :: "(real \<Rightarrow> real) \<Rightarrow> cluster \<Rightarrow> item \<Rightarrow> real" where
  "distance fl c it =
     (let dx = fl (c_x c - i_x it); dy = fl (c_y c - i_y it); dz = fl (c_z c - i_z it)
      in fl (sqrt (fl (fl (fl (dx * dx) + fl (dy * dy)) + fl (dz * dz)))))"

text \<open>
  Adding an item to a cluster and re-averaging its centre:
  \<^verbatim>\<open>((cluster.x * (n - 1)) + item.x) / n\<close> with \<open>n\<close> the new number of members.
\<close>

definition mean_with :: "(real \<Rightarrow> real) \<Rightarrow> real \<Rightarrow> real \<Rightarrow> real \<Rightarrow> real" where
  "mean_with fl old n new = fl (fl (fl (old * fl (n - 1)) + new) / n)"

definition absorb :: "(real \<Rightarrow> real) \<Rightarrow> cluster \<Rightarrow> item \<Rightarrow> cluster" where
  "absorb fl c it =
     (let ps = c_products c @ [i_product it]; n = real (length ps)
      in Cluster ps (mean_with fl (c_x c) n (i_x it))
                    (mean_with fl (c_y c) n (i_y it))
                    (mean_with fl (c_z c) n (i_z it)))"

text \<open>The inner loop: the clusters after the item went into one of them, if it did.\<close>

fun fit :: "(real \<Rightarrow> real) \<Rightarrow> real \<Rightarrow> item \<Rightarrow> cluster list \<Rightarrow> cluster list option" where
  "fit fl THRESHOLD it [] = None"
| "fit fl THRESHOLD it (c # cs) =
     (if distance fl c it < THRESHOLD then Some (absorb fl c it # cs)
      else map_option ((#) c) (fit fl THRESHOLD it cs))"

definition place :: "(real \<Rightarrow> real) \<Rightarrow> real \<Rightarrow> cluster list \<Rightarrow> item \<Rightarrow> cluster list" where
  "place fl THRESHOLD clusters it =
     (case fit fl THRESHOLD it clusters of
        Some clusters' \<Rightarrow> clusters'
      | None \<Rightarrow> clusters @ [Cluster [i_product it] (i_x it) (i_y it) (i_z it)])"

definition sorted_items ::
  "(string \<Rightarrow> 'k::linorder) \<Rightarrow> product list \<Rightarrow> string set \<Rightarrow> item list" where
  "sorted_items collate allProducts visibleProductIds =
     sort_key (\<lambda>it. collate (p_id (i_product it)))
       (map to_item (filter (\<lambda>p. p_id p \<in> visibleProductIds) allProducts))"

definition renderNodes ::
  "(real \<Rightarrow> real) \<Rightarrow> (string \<Rightarrow> 'k::linorder) \<Rightarrow> product list \<Rightarrow> string set \<Rightarrow> real
     \<Rightarrow> cluster list" where
  "renderNodes fl collate allProducts visibleProductIds clusterThreshold =
     foldl (place fl clusterThreshold) []
       (sorted_items collate allProducts visibleProductIds)"

section \<open>Display colour of a node\<close>

text \<open>
  The result is the member's hex string, or the text \<^verbatim>\<open>rgb(r,g,b)\<close>, kept as its three
  numbers; with no member the three divisions are \<^verbatim>\<open>0/0\<close> and the numbers are NaN.
\<close>

datatype color = HexColor string | RgbColor int int int | RgbNaN

text \<open>The body of \<^verbatim>\<open>products.forEach\<close>: a hex that does not decode adds nothing.\<close>

definition add_squares :: "nat \<times> nat \<times> nat \<Rightarrow> product \<Rightarrow> nat \<times> nat \<times> nat" where
  "add_squares acc p =
     (case acc of (rSum, gSum, bSum) \<Rightarrow>
       (case exec_hex6 (expand_shorthand (p_hex p)) of
          Some (rs, gs, bs) \<Rightarrow>
            (let r = parseInt16 rs; g = parseInt16 gs; b = parseInt16 bs
             in (rSum + r * r, gSum + g * g, bSum + b * b))
        | None \<Rightarrow> (rSum, gSum, bSum)))"

definition displayColor :: "product list \<Rightarrow> color" where
  "displayColor products =
     (let count = length products
      in case products of
           [p] \<Rightarrow> HexColor (p_hex p)
         | [] \<Rightarrow> RgbNaN
         | _ \<Rightarrow>
           (case foldl add_squares (0, 0, 0) products of
              (rSum, gSum, bSum) \<Rightarrow>
                RgbColor (round (sqrt (real rSum / real count)))
                         (round (sqrt (real gSum / real count)))
                         (round (sqrt (real bSum / real count)))))"

section \<open>Notions used to state the properties\<close>

text \<open>
  What is used of the rounding: below \<open>2\<^sup>5\<^sup>3\<close> every integer is a double, so a rounded
  value lies between the integers next to the exact one. Rounding to nearest is such.
\<close>

definition between_integers :: "(real \<Rightarrow> real) \<Rightarrow> bool" where
  "between_integers fl =
     (\<forall>x. \<bar>x\<bar> < 2 ^ 53 \<longrightarrow> of_int \<lfloor>x\<rfloor> \<le> fl x \<and> fl x \<le> of_int \<lceil>x\<rceil>)"

text \<open>
  Rounding to nearest, ties to even, to 53 significant bits: the rounding of binary64
  for the results in its normal range. \<open>ulp x\<close> is the distance between the doubles
  around \<open>x\<close>.
\<close>

definition ulp :: "real \<Rightarrow> real" where
  "ulp x = 2 powr (of_int \<lfloor>log 2 \<bar>x\<bar>\<rfloor> - 52)"

definition nearest_even :: "real \<Rightarrow> int" where
  "nearest_even y =
     (let f = \<lfloor>y\<rfloor>
      in if y - of_int f < 1 / 2 then f
         else if 1 / 2 < y - of_int f then f + 1
         else if even f then f else f + 1)"

definition round53 :: "real \<Rightarrow> real" where
  "round53 x = (if x = 0 then 0 else ulp x * of_int (nearest_even (x / ulp x)))"

text \<open>
  What is used of the host's string methods: on a string of ASCII characters,
  \<^verbatim>\<open>toUpperCase\<close> and \<^verbatim>\<open>toLowerCase\<close> change the letters a-z and A-Z only, and
  \<^verbatim>\<open>trim\<close> removes tab, line feed, vertical tab, form feed, carriage return and space
  at both ends.
\<close>

definition upper_char :: "char \<Rightarrow> char" where
  "upper_char c = (let n = of_char c :: nat in if 97 \<le> n \<and> n \<le> 122 then char_of (n - 32) else c)"

definition lower_char :: "char \<Rightarrow> char" where
  "lower_char c = (let n = of_char c :: nat in if 65 \<le> n \<and> n \<le> 90 then char_of (n + 32) else c)"

definition ascii_upper :: "string \<Rightarrow> string" where
  "ascii_upper s = map upper_char s"

definition ascii_lower :: "string \<Rightarrow> string" where
  "ascii_lower s = map lower_char s"

definition is_space :: "char \<Rightarrow> bool" where
  "is_space c = (let n = of_char c :: nat in n = 32 \<or> (9 \<le> n \<and> n \<le> 13))"

definition ascii_trim :: "string \<Rightarrow> string" where
  "ascii_trim s = rev (dropWhile is_space (rev (dropWhile is_space s)))"

definition ascii :: "string \<Rightarrow> bool" where
  "ascii s = list_all (\<lambda>c. (of_char c :: nat) < 128) s"

definition on_ascii :: "host \<Rightarrow> bool" where
  "on_ascii h =
     (\<forall>s. ascii s \<longrightarrow>
        toUpperCase h s = ascii_upper s \<and> toLowerCase h s = ascii_lower s \<and>
        trim h s = ascii_trim s)"

text \<open>A host for concrete ASCII inputs.\<close>

definition ascii_host :: host where
  "ascii_host = \<lparr>toUpperCase = ascii_upper, toLowerCase = ascii_lower, trim = ascii_trim\<rparr>"

text \<open>The strings the hex utility decodes: an optional \<^verbatim>\<open>#\<close>, then 3 or 6 hex digits.\<close>

definition hex_pattern :: "string \<Rightarrow> bool" where
  "hex_pattern s =
     (let ds = strip_hash s in (length ds = 3 \<or> length ds = 6) \<and> list_all is_hex_digit ds)"

text \<open>The entries that some cluster holds.\<close>

definition members :: "cluster list \<Rightarrow> product set" where
  "members cs = (\<Union>c\<in>set cs. set (c_products c))"

text \<open>A catalog entry with a given id and hex, for concrete instances.\<close>

definition entry :: "string \<Rightarrow> string \<Rightarrow> product" where
  "entry i h = \<lparr>p_id = i, p_product = JStr ''PolyLite'', p_name = JStr ''Colour'',
                 p_category = ''Other'', p_hex = h,
                 p_url = JStr ''https://us.polymaker.com'', p_td = None\<rparr>"

text \<open>
  A collation that compares canonically equivalent spellings as equal, which ECMAScript
  requires of \<^verbatim>\<open>localeCompare\<close>: the letter U+00C5 (bytes C3 85 in UTF-8) is spelt
  as A followed by the combining ring U+030A (bytes 41 CC 8A); the keys compare by bytes.
\<close>

fun canonical :: "string \<Rightarrow> string" where
  "canonical (a # b # s) =
     (if a = CHR 0xC3 \<and> b = CHR 0x85 then CHR 0x41 # CHR 0xCC # CHR 0x8A # canonical s
      else a # canonical (b # s))"
| "canonical s = s"




text \<open>The keys whose values make the first value of a dictionary look like a product.\<close>

definition product_keys :: "string list" where
  "product_keys = [''product_name'', ''name'', ''hex_code'', ''hex'', ''color_name'']"

text \<open>The last resort of the decoder: the values of a dictionary of records.\<close>

definition dictionary_values :: "(string \<times> json) list \<Rightarrow> json list option" where
  "dictionary_values kvs =
     (case kvs of
        (k, JObj f) # rest \<Rightarrow> if looks_like_product (JObj f) then Some (map snd kvs) else None
      | _ \<Rightarrow> None)"

text \<open>The entities handed to \<^verbatim>\<open>onProductFound\<close>, in order.\<close>

fun found :: "event list \<Rightarrow> product list" where
  "found [] = []"
| "found (ProductFound p # es) = p # found es"
| "found (e # es) = found es"

text \<open>The entities the records of a list would give, one by one, duplicates included.\<close>

fun cands :: "host \<Rightarrow> json list \<Rightarrow> product list" where
  "cands h [] = []"
| "cands h (x # xs) = (case candidate h x of Inr (Some p) \<Rightarrow> p # cands h xs | _ \<Rightarrow> cands h xs)"

text \<open>First occurrences: the entities whose id is not in \<open>seen\<close> and has not come before.\<close>

fun firsts :: "string set \<Rightarrow> product list \<Rightarrow> product list" where
  "firsts seen [] = []"
| "firsts seen (p # ps) =
     (if p_id p \<in> seen then firsts seen ps else p # firsts (insert (p_id p) seen) ps)"

text \<open>Concrete records and the entities they give.\<close>

definition red_record :: json where
  "red_record = JObj [(''id'', JStr ''1''), (''hex'', JStr ''#FF0000''), (''product'', JStr ''X''),
                      (''color'', JStr ''Red'')]"

definition green_record :: json where
  "green_record = JObj [(''id'', JStr ''1''), (''hex'', JStr ''#00FF00''), (''product'', JStr ''X''),
                        (''color'', JStr ''Green'')]"

definition red_entity :: product where
  "red_entity = \<lparr>p_id = ''1'', p_product = JStr ''X'', p_name = JStr ''Red'', p_category = ''Other'',
                  p_hex = ''#FF0000'', p_url = JStr ''https://us.polymaker.com'', p_td = None\<rparr>"

definition green_entity :: product where
  "green_entity = \<lparr>p_id = ''1'', p_product = JStr ''X'', p_name = JStr ''Green'',
                    p_category = ''Other'', p_hex = ''#00FF00'',
                    p_url = JStr ''https://us.polymaker.com'', p_td = None\<rparr>"

definition untyped_record :: json where
  "untyped_record = JObj [(''product_name'', JNum ''5''), (''hex'', JStr ''#FF0000'')]"

definition unplottable_record :: json where
  "unplottable_record = JObj [(''hex'', JStr ''zzz'')]"

definition translucent_record :: json where
  "translucent_record = JObj [(''id'', JStr ''t1''), (''hex'', JStr ''FF000080'')]"

definition translucent_entity :: product where
  "translucent_entity =
     \<lparr>p_id = ''t1'', p_product = JStr ''Unknown Product'', p_name = JStr ''Unknown Color'',
      p_category = ''Other'', p_hex = ''#FF000080'', p_url = JStr ''https://us.polymaker.com'',
      p_td = None\<rparr>"

text \<open>The state of the loop after \<open>n\<close> entities, with nothing else recorded.\<close>

definition at_count :: "nat \<Rightarrow> ingest" where
  "at_count n = \<lparr>emitted_count = n, processedIds = {}, trace = []\<rparr>"

section \<open>Properties of the hex utility\<close>

lemma length3_conv: "length xs = 3 \<longleftrightarrow> (\<exists>a b c. xs = [a, b, c])"
  by (auto simp: numeral_3_eq_3 length_Suc_conv)

lemma length6_conv: "length xs = 6 \<longleftrightarrow> (\<exists>a b c d e f. xs = [a, b, c, d, e, f])"
  by (auto simp: eval_nat_numeral length_Suc_conv)

lemma hex_digit_val_le: "hex_digit_val c \<le> 15"
  by (auto simp: hex_digit_val_def Let_def)

lemma parseInt16_pair: "parseInt16 [a, b] = 16 * hex_digit_val a + hex_digit_val b"
  by (simp add: parseInt16_def)

lemma parseInt16_pair_le: "parseInt16 [a, b] \<le> 255"
  using hex_digit_val_le [of a] hex_digit_val_le [of b] by (simp add: parseInt16_pair)

lemma strip_hash_hex_digits: "list_all is_hex_digit s \<Longrightarrow> strip_hash s = s"
  by (cases s) (auto simp: strip_hash_def is_hex_digit_def)

lemma exec_hex6_Some:
  "exec_hex6 s = Some (r, g, b) \<longleftrightarrow>
     (\<exists>r1 r2 g1 g2 b1 b2. strip_hash s = [r1, r2, g1, g2, b1, b2] \<and>
        list_all is_hex_digit [r1, r2, g1, g2, b1, b2] \<and>
        r = [r1, r2] \<and> g = [g1, g2] \<and> b = [b1, b2])"
  by (auto simp: exec_hex6_def split: list.splits)

lemma exec_hex6_None:
  "exec_hex6 s = None \<longleftrightarrow>
     \<not> (length (strip_hash s) = 6 \<and> list_all is_hex_digit (strip_hash s))"
  by (auto simp: exec_hex6_def length6_conv split: list.splits)

lemma expand_shorthand_3:
  "strip_hash s = [a, b, c] \<Longrightarrow> list_all is_hex_digit [a, b, c] \<Longrightarrow>
     expand_shorthand s = [a, a, b, b, c, c]"
  by (simp add: expand_shorthand_def)

lemma expand_shorthand_other:
  "\<not> (length (strip_hash s) = 3 \<and> list_all is_hex_digit (strip_hash s)) \<Longrightarrow>
     expand_shorthand s = s"
  by (auto simp: expand_shorthand_def split: list.splits)

lemma hexToRgb_no_match:
  assumes "\<not> hex_pattern s"
  shows "hexToRgb s = Rgb 0 0 0"
proof -
  from assms have "expand_shorthand s = s"
    by (intro expand_shorthand_other) (auto simp: hex_pattern_def Let_def)
  moreover from assms have "exec_hex6 s = None"
    by (auto simp: exec_hex6_None hex_pattern_def Let_def)
  ultimately show ?thesis by (simp add: hexToRgb_def)
qed

lemma hexToRgb_6:
  assumes "strip_hash s = [r1, r2, g1, g2, b1, b2]"
    and "list_all is_hex_digit [r1, r2, g1, g2, b1, b2]"
  shows "hexToRgb s = Rgb (parseInt16 [r1, r2]) (parseInt16 [g1, g2]) (parseInt16 [b1, b2])"
proof -
  from assms(1) have "expand_shorthand s = s"
    by (intro expand_shorthand_other) simp
  moreover from assms have "exec_hex6 s = Some ([r1, r2], [g1, g2], [b1, b2])"
    by (simp add: exec_hex6_Some)
  ultimately show ?thesis by (simp add: hexToRgb_def)
qed

lemma hexToRgb_3:
  assumes "strip_hash s = [a, b, c]" and "list_all is_hex_digit [a, b, c]"
  shows "hexToRgb s = Rgb (parseInt16 [a, a]) (parseInt16 [b, b]) (parseInt16 [c, c])"
proof -
  from assms have e: "expand_shorthand s = [a, a, b, b, c, c]"
    by (rule expand_shorthand_3)
  from assms(2) have "strip_hash [a, a, b, b, c, c] = [a, a, b, b, c, c]"
    by (intro strip_hash_hex_digits) simp
  with assms(2) have "exec_hex6 [a, a, b, b, c, c] = Some ([a, a], [b, b], [c, c])"
    by (simp add: exec_hex6_Some)
  with e show ?thesis by (simp add: hexToRgb_def)
qed

lemma hexToRgb_range:
  "rgb_r (hexToRgb s) \<le> 255 \<and> rgb_g (hexToRgb s) \<le> 255 \<and> rgb_b (hexToRgb s) \<le> 255"
  by (auto simp: hexToRgb_def exec_hex6_Some parseInt16_pair_le split: option.splits)

text \<open>
  C3, as the code has it. A string that is not an optional \<^verbatim>\<open>#\<close> followed by 3 or 6
  hex digits decodes to the triple (0, 0, 0): the utility has no absent result. A string
  of that shape decodes to three channels in 0..255; six digits are read in pairs, and
  three digits decode as the six digits obtained by doubling each.
\<close>

theorem hexToRgb_result:
  "(\<not> hex_pattern s \<longrightarrow> hexToRgb s = Rgb 0 0 0) \<and>
   (hex_pattern s \<longrightarrow>
      rgb_r (hexToRgb s) \<le> 255 \<and> rgb_g (hexToRgb s) \<le> 255 \<and> rgb_b (hexToRgb s) \<le> 255) \<and>
   (strip_hash s = [r1, r2, g1, g2, b1, b2] \<and> list_all is_hex_digit [r1, r2, g1, g2, b1, b2] \<longrightarrow>
      hexToRgb s = Rgb (16 * hex_digit_val r1 + hex_digit_val r2)
                       (16 * hex_digit_val g1 + hex_digit_val g2)
                       (16 * hex_digit_val b1 + hex_digit_val b2)) \<and>
   (strip_hash s = [a, b, c] \<and> list_all is_hex_digit [a, b, c] \<longrightarrow>
      hexToRgb s = hexToRgb [a, a, b, b, c, c])"
proof (intro conjI impI)
  assume "\<not> hex_pattern s"
  then show "hexToRgb s = Rgb 0 0 0" by (rule hexToRgb_no_match)
next
  show "rgb_r (hexToRgb s) \<le> 255" "rgb_g (hexToRgb s) \<le> 255" "rgb_b (hexToRgb s) \<le> 255"
    using hexToRgb_range [of s] by simp_all
next
  assume "strip_hash s = [r1, r2, g1, g2, b1, b2] \<and> list_all is_hex_digit [r1, r2, g1, g2, b1, b2]"
  then show "hexToRgb s = Rgb (16 * hex_digit_val r1 + hex_digit_val r2)
                       (16 * hex_digit_val g1 + hex_digit_val g2)
                       (16 * hex_digit_val b1 + hex_digit_val b2)"
    using hexToRgb_6 [of s r1 r2 g1 g2 b1 b2] by (simp add: parseInt16_pair)
next
  assume h: "strip_hash s = [a, b, c] \<and> list_all is_hex_digit [a, b, c]"
  then have "strip_hash [a, a, b, b, c, c] = [a, a, b, b, c, c]"
    by (intro strip_hash_hex_digits) simp
  with h show "hexToRgb s = hexToRgb [a, a, b, b, c, c]"
    using hexToRgb_3 [of s a b c] hexToRgb_6 [of "[a, a, b, b, c, c]" a a b b c c] by simp
qed

theorem hexToRgb_result_witness:
  "\<not> hex_pattern ''#12345678'' \<and> hexToRgb ''#12345678'' = Rgb 0 0 0 \<and>
   hex_pattern ''#C8c8C8'' \<and> hexToRgb ''#C8c8C8'' = Rgb 200 200 200 \<and>
   rgb_r (hexToRgb ''#C8c8C8'') \<le> 255 \<and>
   hex_pattern ''#fa0'' \<and> hexToRgb ''#fa0'' = hexToRgb ''ffaa00'' \<and>
   hexToRgb ''ffaa00'' = Rgb 255 170 0"
  using hexToRgb_result [of "''#12345678''"]
    hexToRgb_result [of "''#C8c8C8''" "CHR ''C''" "CHR ''8''" "CHR ''c''" "CHR ''8''" "CHR ''C''" "CHR ''8''"]
    hexToRgb_result [of "''#fa0''" _ _ _ _ _ _ "CHR ''f''" "CHR ''a''" "CHR ''0''"]
    hexToRgb_result [of "''ffaa00''" "CHR ''f''" "CHR ''f''" "CHR ''a''" "CHR ''a''" "CHR ''0''" "CHR ''0''"]
  by (simp add: hex_pattern_def strip_hash_def is_hex_digit_def hex_digit_val_def)

text \<open>
  C3 as stated fails: \<^verbatim>\<open>zzz\<close> does not match the pattern, and the utility returns
  a channel triple for it.
\<close>

theorem hexToRgb_absent_counterexample:
  "\<not> hex_pattern ''zzz'' \<and> hexToRgb ''zzz'' = Rgb 0 0 0"
  by (simp add: hex_pattern_def hexToRgb_def exec_hex6_def expand_shorthand_def
      strip_hash_def is_hex_digit_def)

section \<open>Properties of the display colour\<close>

lemma add_squares_hexToRgb:
  "add_squares (a, b, c) p =
     (a + (rgb_r (hexToRgb (p_hex p)))\<^sup>2, b + (rgb_g (hexToRgb (p_hex p)))\<^sup>2,
      c + (rgb_b (hexToRgb (p_hex p)))\<^sup>2)"
  by (simp add: add_squares_def hexToRgb_def Let_def power2_eq_square split: option.splits)

lemma foldl_add_squares:
  "foldl add_squares (a, b, c) ps =
     (a + (\<Sum>p\<leftarrow>ps. (rgb_r (hexToRgb (p_hex p)))\<^sup>2),
      b + (\<Sum>p\<leftarrow>ps. (rgb_g (hexToRgb (p_hex p)))\<^sup>2),
      c + (\<Sum>p\<leftarrow>ps. (rgb_b (hexToRgb (p_hex p)))\<^sup>2))"
  by (induction ps arbitrary: a b c) (simp_all add: add_squares_hexToRgb add.assoc)

lemma displayColor_cluster:
  assumes "1 < length ps"
  shows "displayColor ps =
     RgbColor
       (round (sqrt (real (\<Sum>p\<leftarrow>ps. (rgb_r (hexToRgb (p_hex p)))\<^sup>2) / real (length ps))))
       (round (sqrt (real (\<Sum>p\<leftarrow>ps. (rgb_g (hexToRgb (p_hex p)))\<^sup>2) / real (length ps))))
       (round (sqrt (real (\<Sum>p\<leftarrow>ps. (rgb_b (hexToRgb (p_hex p)))\<^sup>2) / real (length ps))))"
proof -
  from assms obtain p q rest where "ps = p # q # rest"
    by (cases ps; cases "tl ps") auto
  then show ?thesis
    unfolding displayColor_def Let_def foldl_add_squares by simp
qed

lemma round_sqrt_eq:
  fixes x :: real and k :: int
  assumes "1 \<le> k" and "(2 * of_int k - 1)\<^sup>2 \<le> 4 * x" and "4 * x < (2 * of_int k + 1)\<^sup>2"
  shows "round (sqrt x) = k"
proof -
  have lo: "(of_int k - 1 / 2)\<^sup>2 \<le> x"
    using assms(2) by (simp add: power2_eq_square algebra_simps)
  have hi: "x < (of_int k + 1 / 2)\<^sup>2"
    using assms(3) by (simp add: power2_eq_square algebra_simps)
  from lo have a: "of_int k - 1 / 2 \<le> sqrt x" by (rule real_le_rsqrt)
  from assms(1) have "(0::real) \<le> of_int k + 1 / 2" by simp
  with hi have b: "sqrt x < of_int k + 1 / 2" by (intro real_less_lsqrt) simp_all
  from a b show ?thesis
    by (simp add: round_def floor_eq_iff)
qed

lemma round_sqrt_180: "round (sqrt (65025 / 2)) = 180"
  by (rule round_sqrt_eq) simp_all

text \<open>
  C4. A node with one member shows that member's own hex. A node with more members shows,
  per channel, the square root of the mean of the members' squared channel values, rounded
  to the nearest integer (\<open>round x\<close> is \<open>\<lfloor>x + 1/2\<rfloor>\<close>, as \<^verbatim>\<open>Math.round\<close>); the channel
  values are those the scene's hex utility gives, so a member whose hex does not decode
  counts as 0. Members (255,0,0) and (0,255,0) give (180,180,0). The square root and the
  division are those of the reals.
\<close>

theorem displayColor_rms:
  "displayColor [p] = HexColor (p_hex p) \<and>
   (1 < length ps \<longrightarrow>
      displayColor ps =
        RgbColor
          (round (sqrt (real (\<Sum>p\<leftarrow>ps. (rgb_r (hexToRgb (p_hex p)))\<^sup>2) / real (length ps))))
          (round (sqrt (real (\<Sum>p\<leftarrow>ps. (rgb_g (hexToRgb (p_hex p)))\<^sup>2) / real (length ps))))
          (round (sqrt (real (\<Sum>p\<leftarrow>ps. (rgb_b (hexToRgb (p_hex p)))\<^sup>2) / real (length ps))))) \<and>
   (hexToRgb (p_hex p) = Rgb 255 0 0 \<and> hexToRgb (p_hex q) = Rgb 0 255 0 \<longrightarrow>
      displayColor [p, q] = RgbColor 180 180 0)"
proof (intro conjI impI)
  show "displayColor [p] = HexColor (p_hex p)"
    by (simp add: displayColor_def)
next
  assume "1 < length ps"
  then show "displayColor ps =
        RgbColor
          (round (sqrt (real (\<Sum>p\<leftarrow>ps. (rgb_r (hexToRgb (p_hex p)))\<^sup>2) / real (length ps))))
          (round (sqrt (real (\<Sum>p\<leftarrow>ps. (rgb_g (hexToRgb (p_hex p)))\<^sup>2) / real (length ps))))
          (round (sqrt (real (\<Sum>p\<leftarrow>ps. (rgb_b (hexToRgb (p_hex p)))\<^sup>2) / real (length ps))))"
    by (rule displayColor_cluster)
next
  assume "hexToRgb (p_hex p) = Rgb 255 0 0 \<and> hexToRgb (p_hex q) = Rgb 0 255 0"
  then show "displayColor [p, q] = RgbColor 180 180 0"
    using displayColor_cluster [of "[p, q]"] by (simp add: round_sqrt_180)
qed

lemma hexToRgb_red_green:
  "hexToRgb ''#FF0000'' = Rgb 255 0 0" "hexToRgb ''#00ff00'' = Rgb 0 255 0"
  by (simp_all add: hexToRgb_def exec_hex6_def expand_shorthand_def strip_hash_def
      is_hex_digit_def parseInt16_def hex_digit_val_def)

text \<open>Pure red and pure green: alone, and together.\<close>

theorem displayColor_rms_witness:
  "displayColor [entry ''k1'' ''#FF0000''] = HexColor ''#FF0000'' \<and>
   1 < length [entry ''k1'' ''#FF0000'', entry ''k2'' ''#00ff00''] \<and>
   displayColor [entry ''k1'' ''#FF0000'', entry ''k2'' ''#00ff00''] =
     RgbColor (round (sqrt (65025 / 2))) (round (sqrt (65025 / 2))) (round (sqrt 0)) \<and>
   displayColor [entry ''k1'' ''#FF0000'', entry ''k2'' ''#00ff00''] = RgbColor 180 180 0 \<and>
   displayColor [entry ''k1'' ''#FF0000'', entry ''k2'' ''#00ff00''] \<noteq> RgbColor 128 128 0"
proof -
  let ?p = "entry ''k1'' ''#FF0000''" and ?q = "entry ''k2'' ''#00ff00''"
  have h: "hexToRgb (p_hex ?p) = Rgb 255 0 0 \<and> hexToRgb (p_hex ?q) = Rgb 0 255 0"
    by (simp add: entry_def hexToRgb_red_green)
  have l: "1 < length [?p, ?q]" by simp
  note t = displayColor_rms [of ?p "[?p, ?q]" ?q]
  have a: "displayColor [?p] = HexColor ''#FF0000''"
    using t [THEN conjunct1] by (simp add: entry_def)
  have b: "displayColor [?p, ?q] =
     RgbColor (round (sqrt (65025 / 2))) (round (sqrt (65025 / 2))) (round (sqrt 0))"
    using t [THEN conjunct2, THEN conjunct1, THEN mp, OF l] h by simp
  have c: "displayColor [?p, ?q] = RgbColor 180 180 0"
    using t [THEN conjunct2, THEN conjunct2, THEN mp, OF h] .
  from a b c l show ?thesis by simp
qed

section \<open>Properties of the response decoder\<close>

lemma looks_like_product_iff:
  "looks_like_product v \<longleftrightarrow> list_ex (\<lambda>k. truthy (field v k)) product_keys"
  by (simp add: looks_like_product_def product_keys_def lor_def)

lemma looks_like_product_not_object: "looks_like_product v \<Longrightarrow> \<exists>f. v = JObj f"
  by (cases v) (simp_all add: looks_like_product_def lor_def)

lemma findArrayInObject_JObj:
  "findArrayInObject (JObj kvs) =
     (case array_prop (JObj kvs) ''data'' of Some xs \<Rightarrow> Some xs | None \<Rightarrow>
     (case array_prop (JObj kvs) ''products'' of Some xs \<Rightarrow> Some xs | None \<Rightarrow>
     (case array_prop (JObj kvs) ''items'' of Some xs \<Rightarrow> Some xs | None \<Rightarrow>
        dictionary_values kvs)))"
proof -
  have "(case map snd kvs of
           [] \<Rightarrow> None
         | first # rest \<Rightarrow>
             if is_object first \<and> looks_like_product first then Some (map snd kvs) else None) =
        dictionary_values kvs"
    by (auto simp: dictionary_values_def is_object_def split: list.splits json.splits
        dest: looks_like_product_not_object)
  then show ?thesis
    by (simp add: findArrayInObject_def Let_def split: option.splits)
qed

text \<open>
  C8, as the code has it. An array is returned as it is. For an object, the first of the
  properties data, products, items that holds an array gives the result. Failing that,
  when the first value of the object is itself an object with a truthy value under one of
  product_name, name, hex_code, hex, color_name, the result is the list of the object's
  values; otherwise, and for null, booleans, numbers and strings, nothing is found.
  So \<^verbatim>\<open>{"data": xs}\<close> and \<^verbatim>\<open>xs\<close> give \<open>xs\<close>, a dictionary whose first record has
  a non-empty name gives its values, and \<^verbatim>\<open>{"foo": "bar"}\<close> gives nothing.
\<close>

theorem findArrayInObject_shapes:
  "findArrayInObject (JArr xs) = Some xs \<and>
   (array_prop (JObj kvs) ''data'' = Some xs \<longrightarrow> findArrayInObject (JObj kvs) = Some xs) \<and>
   (array_prop (JObj kvs) ''data'' = None \<and> array_prop (JObj kvs) ''products'' = Some xs \<longrightarrow>
      findArrayInObject (JObj kvs) = Some xs) \<and>
   (array_prop (JObj kvs) ''data'' = None \<and> array_prop (JObj kvs) ''products'' = None \<and>
    array_prop (JObj kvs) ''items'' = Some xs \<longrightarrow> findArrayInObject (JObj kvs) = Some xs) \<and>
   (array_prop (JObj kvs) ''data'' = None \<and> array_prop (JObj kvs) ''products'' = None \<and>
    array_prop (JObj kvs) ''items'' = None \<and> kvs = (k, JObj f) # rest \<and>
    list_ex (\<lambda>key. truthy (map_of f key)) product_keys \<longrightarrow>
      findArrayInObject (JObj kvs) = Some (map snd kvs)) \<and>
   (array_prop (JObj kvs) ''data'' = None \<and> array_prop (JObj kvs) ''products'' = None \<and>
    array_prop (JObj kvs) ''items'' = None \<and>
    (\<nexists>k f rest. kvs = (k, JObj f) # rest \<and> list_ex (\<lambda>key. truthy (map_of f key)) product_keys) \<longrightarrow>
      findArrayInObject (JObj kvs) = None) \<and>
   findArrayInObject JNull = None \<and> findArrayInObject (JBool b) = None \<and>
   findArrayInObject (JNum n) = None \<and> findArrayInObject (JStr s) = None \<and>
   findArrayInObject (JObj [(''data'', JArr xs)]) = Some xs \<and>
   findArrayInObject (JObj [(''0'', JObj ((''name'', JStr (c # cs)) # g)), (''1'', y)]) =
     Some [JObj ((''name'', JStr (c # cs)) # g), y] \<and>
   findArrayInObject (JObj [(''foo'', JStr ''bar'')]) = None"
proof (intro conjI impI)
  show "findArrayInObject (JArr xs) = Some xs"
    by (simp add: findArrayInObject_def)
  show "findArrayInObject JNull = None" "findArrayInObject (JBool b) = None"
    "findArrayInObject (JNum n) = None" "findArrayInObject (JStr s) = None"
    by (simp_all add: findArrayInObject_def)
  show "findArrayInObject (JObj [(''data'', JArr xs)]) = Some xs"
    by (simp add: findArrayInObject_JObj array_prop_def)
  show "findArrayInObject (JObj [(''0'', JObj ((''name'', JStr (c # cs)) # g)), (''1'', y)]) =
     Some [JObj ((''name'', JStr (c # cs)) # g), y]"
    by (simp add: findArrayInObject_JObj array_prop_def dictionary_values_def looks_like_product_def lor_def)
  show "findArrayInObject (JObj [(''foo'', JStr ''bar'')]) = None"
    by (simp add: findArrayInObject_JObj array_prop_def dictionary_values_def)
next
  assume "array_prop (JObj kvs) ''data'' = Some xs"
  then show "findArrayInObject (JObj kvs) = Some xs"
    by (simp add: findArrayInObject_JObj)
next
  assume "array_prop (JObj kvs) ''data'' = None \<and> array_prop (JObj kvs) ''products'' = Some xs"
  then show "findArrayInObject (JObj kvs) = Some xs"
    by (simp add: findArrayInObject_JObj)
next
  assume "array_prop (JObj kvs) ''data'' = None \<and> array_prop (JObj kvs) ''products'' = None \<and>
    array_prop (JObj kvs) ''items'' = Some xs"
  then show "findArrayInObject (JObj kvs) = Some xs"
    by (simp add: findArrayInObject_JObj)
next
  assume a: "array_prop (JObj kvs) ''data'' = None \<and> array_prop (JObj kvs) ''products'' = None \<and>
    array_prop (JObj kvs) ''items'' = None \<and> kvs = (k, JObj f) # rest \<and>
    list_ex (\<lambda>key. truthy (map_of f key)) product_keys"
  then have n: "array_prop (JObj kvs) ''data'' = None" "array_prop (JObj kvs) ''products'' = None"
      "array_prop (JObj kvs) ''items'' = None"
    by blast+
  have "findArrayInObject (JObj kvs) = dictionary_values kvs"
    unfolding findArrayInObject_JObj n by simp
  with a show "findArrayInObject (JObj kvs) = Some (map snd kvs)"
    by (simp add: dictionary_values_def looks_like_product_iff)
next
  assume a: "array_prop (JObj kvs) ''data'' = None \<and> array_prop (JObj kvs) ''products'' = None \<and>
    array_prop (JObj kvs) ''items'' = None \<and>
    (\<nexists>k f rest. kvs = (k, JObj f) # rest \<and> list_ex (\<lambda>key. truthy (map_of f key)) product_keys)"
  then have "dictionary_values kvs = None"
    by (auto simp: dictionary_values_def looks_like_product_iff split: list.splits json.splits)
  with a show "findArrayInObject (JObj kvs) = None"
    by (simp add: findArrayInObject_JObj)
qed

text \<open>One object for each branch.\<close>

theorem findArrayInObject_shapes_witness:
  "array_prop (JObj [(''items'', JArr [JNull]), (''data'', JArr [])]) ''data'' = Some [] \<and>
   findArrayInObject (JObj [(''items'', JArr [JNull]), (''data'', JArr [])]) = Some [] \<and>
   findArrayInObject (JObj [(''data'', JStr ''x''), (''products'', JArr [JNull])]) = Some [JNull] \<and>
   findArrayInObject (JObj [(''items'', JArr [JNull]), (''x'', JNull)]) = Some [JNull] \<and>
   findArrayInObject (JObj [(''7'', JObj [(''hex'', JStr ''#fff'')]), (''9'', JNull)]) =
     Some [JObj [(''hex'', JStr ''#fff'')], JNull] \<and>
   findArrayInObject (JObj [(''7'', JObj [(''color'', JStr ''Red'')])]) = None"
proof -
  note t = findArrayInObject_shapes
  note c2 = conjunct2
  have a: "array_prop (JObj [(''items'', JArr [JNull]), (''data'', JArr [])]) ''data'' = Some []"
    by (simp add: array_prop_def)
  have b: "array_prop (JObj [(''data'', JStr ''x''), (''products'', JArr [JNull])]) ''data'' = None \<and>
      array_prop (JObj [(''data'', JStr ''x''), (''products'', JArr [JNull])]) ''products'' = Some [JNull]"
    by (simp add: array_prop_def)
  have c: "array_prop (JObj [(''items'', JArr [JNull]), (''x'', JNull)]) ''data'' = None \<and>
      array_prop (JObj [(''items'', JArr [JNull]), (''x'', JNull)]) ''products'' = None \<and>
      array_prop (JObj [(''items'', JArr [JNull]), (''x'', JNull)]) ''items'' = Some [JNull]"
    by (simp add: array_prop_def)
  let ?d = "[(''7'', JObj [(''hex'', JStr ''#fff'')]), (''9'', JNull)]"
  have d: "array_prop (JObj ?d) ''data'' = None \<and> array_prop (JObj ?d) ''products'' = None \<and>
      array_prop (JObj ?d) ''items'' = None \<and> ?d = (''7'', JObj [(''hex'', JStr ''#fff'')]) # [(''9'', JNull)] \<and>
      list_ex (\<lambda>key. truthy (map_of [(''hex'', JStr ''#fff'')] key)) product_keys"
    by (simp add: array_prop_def product_keys_def)
  let ?e = "[(''7'', JObj [(''color'', JStr ''Red'')])]"
  have e: "array_prop (JObj ?e) ''data'' = None \<and> array_prop (JObj ?e) ''products'' = None \<and>
      array_prop (JObj ?e) ''items'' = None \<and>
      (\<nexists>k f rest. ?e = (k, JObj f) # rest \<and> list_ex (\<lambda>key. truthy (map_of f key)) product_keys)"
    by (simp add: array_prop_def product_keys_def)
  from a t [THEN c2, THEN conjunct1, THEN mp, OF a]
    t [THEN c2, THEN c2, THEN conjunct1, THEN mp, OF b]
    t [THEN c2, THEN c2, THEN c2, THEN conjunct1, THEN mp, OF c]
    t [THEN c2, THEN c2, THEN c2, THEN c2, THEN conjunct1, THEN mp, OF d]
    t [THEN c2, THEN c2, THEN c2, THEN c2, THEN c2, THEN conjunct1, THEN mp, OF e]
  show ?thesis by simp
qed

text \<open>
  C8 as stated fails: the first value of this dictionary has a name field, but the name
  is empty, and the decoder finds nothing.
\<close>

theorem findArrayInObject_empty_name_counterexample:
  "''name'' \<in> fst ` set [(''name'', JStr [])] \<and>
   findArrayInObject
     (JObj [(''0'', JObj [(''name'', JStr [])]), (''1'', JObj [(''name'', JStr ''Red'')])]) = None"
  by (simp add: findArrayInObject_JObj array_prop_def dictionary_values_def looks_like_product_def lor_def)

section \<open>Properties of the clustering engine\<close>

text \<open>Consequences of rounding between the neighbouring integers.\<close>

lemma fl_of_int:
  assumes "between_integers fl" and "\<bar>of_int k :: real\<bar> < 2 ^ 53"
  shows "fl (of_int k) = of_int k"
proof -
  from assms have "of_int \<lfloor>of_int k :: real\<rfloor> \<le> fl (of_int k)"
    and "fl (of_int k) \<le> of_int \<lceil>of_int k :: real\<rceil>"
    unfolding between_integers_def by blast+
  then show ?thesis by simp
qed

lemma fl_numerals:
  assumes "between_integers fl"
  shows "fl 0 = 0" and "fl 1 = 1" and "fl (- 1) = - 1"
    and "(numeral w :: real) < 2 ^ 53 \<Longrightarrow> fl (numeral w) = numeral w"
    and "(numeral w :: real) < 2 ^ 53 \<Longrightarrow> fl (- numeral w) = - numeral w"
  using fl_of_int [OF assms, of 0] fl_of_int [OF assms, of 1] fl_of_int [OF assms, of "- 1"]
    fl_of_int [OF assms, of "numeral w"] fl_of_int [OF assms, of "- numeral w"]
  by simp_all

lemma fl_sqrt_less:
  assumes "between_integers fl" and "0 \<le> x" and "x \<le> (of_int k)\<^sup>2" and "0 \<le> k"
    and "of_int k < T" and "(of_int k :: real) < 2 ^ 53"
  shows "fl (sqrt x) < T"
proof -
  from assms(3,4) have s: "sqrt x \<le> of_int k"
    by (intro real_le_lsqrt) simp_all
  from assms(2) have "0 \<le> sqrt x" by simp
  with s assms(6) have "\<bar>sqrt x\<bar> < 2 ^ 53" by simp
  with assms(1) have "fl (sqrt x) \<le> of_int \<lceil>sqrt x\<rceil>"
    unfolding between_integers_def by blast
  also from s have "(of_int \<lceil>sqrt x\<rceil> :: real) \<le> of_int k"
    by (simp add: ceiling_le_iff)
  finally show ?thesis using assms(5) by simp
qed

lemma fl_sqrt_not_less:
  assumes "between_integers fl" and "(of_int k)\<^sup>2 \<le> x" and "0 \<le> k" and "T \<le> of_int k"
    and "x < (of_int m)\<^sup>2" and "0 \<le> m" and "(of_int m :: real) \<le> 2 ^ 53"
  shows "\<not> fl (sqrt x) < T"
proof -
  from assms(2,3) have s: "of_int k \<le> sqrt x"
    by (intro real_le_rsqrt) simp_all
  from assms(5,6) have "sqrt x < of_int m"
    by (intro real_less_lsqrt) simp_all
  moreover from assms(3) have "(0::real) \<le> of_int k" by simp
  with s have "0 \<le> sqrt x" by linarith
  ultimately have "\<bar>sqrt x\<bar> < 2 ^ 53" using assms(7) by simp
  with assms(1) have "of_int \<lfloor>sqrt x\<rfloor> \<le> fl (sqrt x)"
    unfolding between_integers_def by blast
  moreover from s have "(of_int k :: real) \<le> of_int \<lfloor>sqrt x\<rfloor>"
    by (simp add: le_floor_iff)
  ultimately show ?thesis using assms(4) by simp
qed

lemma scenario_distances:
  assumes "between_integers fl"
  shows "fl (sqrt 12) < 15" "\<not> fl (sqrt 118803) < 15" "\<not> fl (sqrt 120000) < 15"
    "\<not> fl (sqrt 117612) < 15"
    "fl (sqrt 12) < 400" "fl (sqrt 118803) < 400" "fl (sqrt 120000) < 400"
    "fl (sqrt 117612) < 400" "fl (sqrt 28812) < 400" "fl (sqrt 30603) < 400"
proof -
  note lt = fl_sqrt_less [OF assms] and ge = fl_sqrt_not_less [OF assms]
  show "fl (sqrt 12) < 15" by (rule lt [of _ 4]) simp_all
  show "\<not> fl (sqrt 118803) < 15" by (rule ge [of 15 _ _ 1000]) simp_all
  show "\<not> fl (sqrt 120000) < 15" by (rule ge [of 15 _ _ 1000]) simp_all
  show "\<not> fl (sqrt 117612) < 15" by (rule ge [of 15 _ _ 1000]) simp_all
  show "fl (sqrt 12) < 400" by (rule lt [of _ 4]) simp_all
  show "fl (sqrt 118803) < 400" by (rule lt [of _ 399]) simp_all
  show "fl (sqrt 120000) < 400" by (rule lt [of _ 399]) simp_all
  show "fl (sqrt 117612) < 400" by (rule lt [of _ 399]) simp_all
  show "fl (sqrt 28812) < 400" by (rule lt [of _ 399]) simp_all
  show "fl (sqrt 30603) < 400" by (rule lt [of _ 399]) simp_all
qed

lemma scenario_15:
  assumes "between_integers fl"
    and "its \<in> set (map (map (\<lambda>(p, v). Item p v v v))
       [[(p1, 0), (p2, 2), (p3, 200)], [(p1, 0), (p3, 200), (p2, 2)],
        [(p2, 2), (p1, 0), (p3, 200)], [(p2, 2), (p3, 200), (p1, 0)],
        [(p3, 200), (p1, 0), (p2, 2)], [(p3, 200), (p2, 2), (p1, 0)]])"
  shows "mset (map (\<lambda>c. mset (c_products c)) (foldl (place fl 15) [] its)) =
     {#{#p1, p2#}, {#p3#}#}"
  using assms(2)
  by (auto simp: place_def distance_def absorb_def mean_with_def fl_numerals [OF assms(1)]
      scenario_distances [OF assms(1)])

lemma scenario_400:
  assumes "between_integers fl"
    and "its \<in> set (map (map (\<lambda>(p, v). Item p v v v))
       [[(p1, 0), (p2, 2), (p3, 200)], [(p1, 0), (p3, 200), (p2, 2)],
        [(p2, 2), (p1, 0), (p3, 200)], [(p2, 2), (p3, 200), (p1, 0)],
        [(p3, 200), (p1, 0), (p2, 2)], [(p3, 200), (p2, 2), (p1, 0)]])"
  shows "map (\<lambda>c. mset (c_products c)) (foldl (place fl 400) [] its) = [{#p1, p2, p3#}]"
  using assms(2)
  by (auto simp: place_def distance_def absorb_def mean_with_def fl_numerals [OF assms(1)]
      scenario_distances [OF assms(1)])

lemma nearest_even_bounds: "\<lfloor>y\<rfloor> \<le> nearest_even y \<and> nearest_even y \<le> \<lceil>y\<rceil>"
proof -
  have "\<lfloor>y\<rfloor> \<le> \<lceil>y\<rceil>" by (rule floor_le_ceiling)
  moreover have "y \<noteq> of_int \<lfloor>y\<rfloor> \<Longrightarrow> \<lceil>y\<rceil> = \<lfloor>y\<rfloor> + 1"
    by (simp add: ceiling_altdef)
  ultimately show ?thesis
    by (auto simp: nearest_even_def Let_def)
qed

lemma round53_bounds:
  assumes "\<bar>x\<bar> < 2 ^ 53"
  shows "of_int \<lfloor>x\<rfloor> \<le> round53 x \<and> round53 x \<le> of_int \<lceil>x\<rceil>"
proof (cases "x = 0")
  case True
  then show ?thesis by (simp add: round53_def)
next
  case False
  define e where "e = \<lfloor>log 2 \<bar>x\<bar>\<rfloor>"
  define k where "k = nat (52 - e)"
  from False assms have "log 2 \<bar>x\<bar> < log 2 (2 ^ 53)"
    by (simp only: log_less_cancel_iff)
  moreover have "log 2 ((2::real) ^ 53) = real 53"
    by (rule log_pow_cancel) simp_all
  ultimately have "log 2 \<bar>x\<bar> < real 53" by (simp only:)
  then have "log 2 \<bar>x\<bar> < 53" by simp
  then have e: "e \<le> 52" unfolding e_def by (simp add: floor_less_iff)
  then have ek: "of_int e - 52 = - real k" by (simp add: k_def)
  have u: "ulp x = 1 / 2 ^ k"
    unfolding ulp_def e_def [symmetric] ek by (simp add: powr_minus powr_realpow divide_inverse)
  have xu: "x / ulp x = x * 2 ^ k" by (simp add: u)
  have "of_int (\<lfloor>x\<rfloor> * 2 ^ k) \<le> x * 2 ^ k"
    by (simp add: mult_right_mono)
  then have "\<lfloor>x\<rfloor> * 2 ^ k \<le> \<lfloor>x * 2 ^ k\<rfloor>" by (simp only: le_floor_iff)
  with nearest_even_bounds [of "x * 2 ^ k"] have "\<lfloor>x\<rfloor> * 2 ^ k \<le> nearest_even (x * 2 ^ k)"
    by linarith
  then have "of_int (\<lfloor>x\<rfloor> * 2 ^ k) \<le> (of_int (nearest_even (x * 2 ^ k)) :: real)"
    by (simp only: of_int_le_iff)
  then have lo: "of_int \<lfloor>x\<rfloor> \<le> round53 x"
    using False by (simp add: round53_def xu u field_simps)
  have "x * 2 ^ k \<le> of_int (\<lceil>x\<rceil> * 2 ^ k)"
    by (simp add: mult_right_mono)
  then have "\<lceil>x * 2 ^ k\<rceil> \<le> \<lceil>x\<rceil> * 2 ^ k" by (simp only: ceiling_le_iff)
  with nearest_even_bounds [of "x * 2 ^ k"] have "nearest_even (x * 2 ^ k) \<le> \<lceil>x\<rceil> * 2 ^ k"
    by linarith
  then have "(of_int (nearest_even (x * 2 ^ k)) :: real) \<le> of_int (\<lceil>x\<rceil> * 2 ^ k)"
    by (simp only: of_int_le_iff)
  then have hi: "round53 x \<le> of_int \<lceil>x\<rceil>"
    using False by (simp add: round53_def xu u field_simps)
  from lo hi show ?thesis ..
qed

lemma between_integers_round53: "between_integers round53"
  by (simp add: between_integers_def round53_bounds)

text \<open>Distances of the instances below.\<close>

lemma red_distances:
  assumes "between_integers fl"
  shows "\<not> fl (sqrt 400) < 15" "fl (sqrt 100) < 15"
proof -
  show "\<not> fl (sqrt 400) < 15"
    by (rule fl_sqrt_not_less [OF assms, of 20 _ _ 1000]) simp_all
  show "fl (sqrt 100) < 15"
    by (rule fl_sqrt_less [OF assms, of _ 10]) simp_all
qed

lemma sample_distances:
  assumes "between_integers fl"
  shows "\<not> distance fl (Cluster pa 0 0 0) (Item p 10 20 32) < 3"
    "\<not> distance fl (Cluster pa 0 0 0) (Item p 10 20 32) < 1"
    "distance fl (Cluster pb 10 20 30) (Item p 10 20 32) = 2"
    "distance fl (Cluster pc 10 20 31) (Item p 10 20 32) = 1"
proof -
  note n = fl_numerals [OF assms]
  have far: "\<not> fl (sqrt 1524) < 3" "\<not> fl (sqrt 1524) < 1"
    by (rule fl_sqrt_not_less [OF assms, of 39 _ _ 1000]; simp)+
  have "sqrt 4 = sqrt (2\<^sup>2)" by simp
  then have two: "sqrt 4 = 2" by (simp only: real_sqrt_abs)
  show "\<not> distance fl (Cluster pa 0 0 0) (Item p 10 20 32) < 3"
    "\<not> distance fl (Cluster pa 0 0 0) (Item p 10 20 32) < 1"
    by (simp_all add: distance_def n far)
  show "distance fl (Cluster pb 10 20 30) (Item p 10 20 32) = 2"
    by (simp add: distance_def n two)
  show "distance fl (Cluster pc 10 20 31) (Item p 10 20 32) = 1"
    by (simp add: distance_def n)
qed

text \<open>The inner loop and the placing of one item.\<close>

lemma fit_None_iff: "fit fl T it cs = None \<longleftrightarrow> (\<forall>c\<in>set cs. \<not> distance fl c it < T)"
  by (induction cs) auto

lemma fit_Some_first:
  assumes "i < length cs" and "distance fl (cs ! i) it < T"
    and "\<forall>j<i. \<not> distance fl (cs ! j) it < T"
  shows "fit fl T it cs = Some (cs[i := absorb fl (cs ! i) it])"
  using assms
proof (induction cs arbitrary: i)
  case Nil
  then show ?case by simp
next
  case (Cons c cs)
  show ?case
  proof (cases i)
    case 0
    with Cons.prems show ?thesis by simp
  next
    case (Suc k)
    with Cons.prems have "\<not> distance fl c it < T" by auto
    moreover from Suc Cons.prems have "fit fl T it cs = Some (cs[k := absorb fl (cs ! k) it])"
      by (intro Cons.IH) auto
    ultimately show ?thesis using Suc by simp
  qed
qed

lemma place_new:
  assumes "\<forall>c\<in>set cs. \<not> distance fl c it < T"
  shows "place fl T cs it = cs @ [Cluster [i_product it] (i_x it) (i_y it) (i_z it)]"
proof -
  from assms have "fit fl T it cs = None" by (simp add: fit_None_iff)
  then show ?thesis by (simp add: place_def)
qed

lemma place_first:
  "i < length cs \<Longrightarrow> distance fl (cs ! i) it < T \<Longrightarrow> \<forall>j<i. \<not> distance fl (cs ! j) it < T \<Longrightarrow>
     place fl T cs it = cs[i := absorb fl (cs ! i) it]"
  by (simp add: place_def fit_Some_first)

lemma members_simps:
  "members [] = {}" "members (c # cs) = set (c_products c) \<union> members cs"
  "members (cs @ ds) = members cs \<union> members ds"
  by (auto simp: members_def)

lemma c_products_absorb: "c_products (absorb fl c it) = c_products c @ [i_product it]"
  by (simp add: absorb_def Let_def)

lemma members_fit:
  "fit fl T it cs = Some cs' \<Longrightarrow> members cs' = insert (i_product it) (members cs)"
proof (induction cs arbitrary: cs')
  case Nil
  then show ?case by simp
next
  case (Cons c cs)
  show ?case
  proof (cases "distance fl c it < T")
    case True
    with Cons.prems have "cs' = absorb fl c it # cs" by simp
    then show ?thesis by (auto simp: members_simps c_products_absorb)
  next
    case False
    with Cons.prems obtain ds where ds: "fit fl T it cs = Some ds" and "cs' = c # ds"
      by auto
    with Cons.IH [OF ds] show ?thesis by (auto simp: members_simps)
  qed
qed

lemma members_place: "members (place fl T cs it) = insert (i_product it) (members cs)"
  by (auto simp: place_def members_fit members_simps split: option.splits)

lemma members_foldl_place:
  "members (foldl (place fl T) cs its) = members cs \<union> i_product ` set its"
  by (induction its arbitrary: cs) (auto simp: members_place)

lemma i_product_to_item: "i_product (to_item p) = p"
  by (simp add: to_item_def Let_def)

lemma set_sorted_items:
  "i_product ` set (sorted_items collate ps vis) = {p \<in> set ps. p_id p \<in> vis}"
  by (auto simp: sorted_items_def i_product_to_item image_iff)

lemma members_renderNodes:
  "members (renderNodes fl collate ps vis T) = {p \<in> set ps. p_id p \<in> vis}"
  by (simp add: renderNodes_def members_foldl_place members_simps set_sorted_items)

lemma sorted_sorted_items:
  "sorted (map (\<lambda>it. collate (p_id (i_product it))) (sorted_items collate ps vis))"
  by (simp add: sorted_items_def)

lemma sorted_items_order_independent:
  assumes "mset ps' = mset ps" and "distinct (map (\<lambda>p. collate (p_id p)) ps)"
  shows "sorted_items collate ps' vis = sorted_items collate ps vis"
proof -
  let ?f = "\<lambda>it. collate (p_id (i_product it))"
  let ?P = "\<lambda>p. p_id p \<in> vis"
  let ?xs' = "map to_item (filter ?P ps')" and ?xs = "map to_item (filter ?P ps)"
  from assms(1) have m: "mset ?xs' = mset ?xs"
    by (metis mset_filter mset_map)
  from assms(1) have "set ps' = set ps" by (rule mset_eq_setD)
  have inj: "inj_on (\<lambda>p. collate (p_id p)) (set ps)"
    using assms(2) by (simp add: distinct_map)
  have i: "inj_on ?f (set ?xs')"
  proof (rule inj_onI)
    fix a b assume "a \<in> set ?xs'" "b \<in> set ?xs'" "?f a = ?f b"
    then obtain p q where pq: "p \<in> set ps'" "q \<in> set ps'" "a = to_item p" "b = to_item q"
      by auto
    with \<open>?f a = ?f b\<close> have "collate (p_id p) = collate (p_id q)"
      by (simp add: i_product_to_item)
    with pq inj \<open>set ps' = set ps\<close> have "p = q" by (auto dest: inj_onD)
    with pq show "a = b" by simp
  qed
  have e: "mset ?xs' = mset (sort_key ?f ?xs)" using m by simp
  have "sorted (map ?f (sort_key ?f ?xs))" by simp
  with e i have "sort_key ?f ?xs' = sort_key ?f ?xs"
    by (rule sort_key_inj_key_eq)
  then show ?thesis by (simp add: sorted_items_def)
qed


lemma scenario_items:
  assumes "hexToRgb (p_hex p1) = Rgb 0 0 0" "hexToRgb (p_hex p2) = Rgb 2 2 2"
    "hexToRgb (p_hex p3) = Rgb 200 200 200"
    and "p_id p1 \<in> vis" "p_id p2 \<in> vis" "p_id p3 \<in> vis"
  shows "sorted_items collate [p1, p2, p3] vis \<in>
     set (map (map (\<lambda>(p, v). Item p v v v))
       [[(p1, 0), (p2, 2), (p3, 200)], [(p1, 0), (p3, 200), (p2, 2)],
        [(p2, 2), (p1, 0), (p3, 200)], [(p2, 2), (p3, 200), (p1, 0)],
        [(p3, 200), (p1, 0), (p2, 2)], [(p3, 200), (p2, 2), (p1, 0)]])"
  using assms by (simp add: sorted_items_def to_item_def)

lemma mset_sorted_items:
  "mset (sorted_items collate ps vis) = mset (map to_item (filter (\<lambda>p. p_id p \<in> vis) ps))"
  by (simp add: sorted_items_def)

text \<open>
  C1. The engine maps each visible entry to the point of its red, green and blue
  channels, sorts the points by the collation of their ids, and folds them into the
  cluster list from the left. The distance of a point to a centre is the square root of
  the sum of the squared differences, each operation rounded. A point joins the first
  cluster of the list whose centre is at a distance strictly below the threshold, whatever
  the later clusters are; that cluster gets the point as its last member and, with \<open>n\<close>
  its new size, the centre \<open>(old * (n - 1) + point) / n\<close> per channel, each operation
  rounded. With no such cluster a new singleton cluster at the point is appended. Three
  visible entries at (0,0,0), (2,2,2) and (200,200,200), whatever their ids, give the first
  two together and the third alone at threshold 15, and one cluster of all three at
  threshold 400, when rounding stays between the neighbouring integers.
\<close>

theorem greedy_first_fit:
  fixes collate :: "string \<Rightarrow> 'k::linorder"
  shows
  "renderNodes fl collate allProducts vis T =
     foldl (place fl T) [] (sorted_items collate allProducts vis) \<and>
   sorted (map (\<lambda>it. collate (p_id (i_product it))) (sorted_items collate allProducts vis)) \<and>
   mset (sorted_items collate allProducts vis) =
     mset (map to_item (filter (\<lambda>p. p_id p \<in> vis) allProducts)) \<and>
   to_item p = Item p (real (rgb_r (hexToRgb (p_hex p)))) (real (rgb_g (hexToRgb (p_hex p))))
                 (real (rgb_b (hexToRgb (p_hex p)))) \<and>
   distance fl c it =
     fl (sqrt (fl (fl (fl (fl (c_x c - i_x it) * fl (c_x c - i_x it))
                     + fl (fl (c_y c - i_y it) * fl (c_y c - i_y it)))
                 + fl (fl (c_z c - i_z it) * fl (c_z c - i_z it))))) \<and>
   ((\<forall>c\<in>set cs. \<not> distance fl c it < T) \<longrightarrow>
      place fl T cs it = cs @ [Cluster [i_product it] (i_x it) (i_y it) (i_z it)]) \<and>
   (i < length cs \<and> distance fl (cs ! i) it < T \<and> (\<forall>j<i. \<not> distance fl (cs ! j) it < T) \<longrightarrow>
      place fl T cs it =
        cs[i := Cluster (c_products (cs ! i) @ [i_product it])
                 (fl (fl (fl (c_x (cs ! i) * fl (real (length (c_products (cs ! i)) + 1) - 1))
                          + i_x it) / real (length (c_products (cs ! i)) + 1)))
                 (fl (fl (fl (c_y (cs ! i) * fl (real (length (c_products (cs ! i)) + 1) - 1))
                          + i_y it) / real (length (c_products (cs ! i)) + 1)))
                 (fl (fl (fl (c_z (cs ! i) * fl (real (length (c_products (cs ! i)) + 1) - 1))
                          + i_z it) / real (length (c_products (cs ! i)) + 1)))]) \<and>
   (between_integers fl \<and>
    hexToRgb (p_hex p1) = Rgb 0 0 0 \<and> hexToRgb (p_hex p2) = Rgb 2 2 2 \<and>
    hexToRgb (p_hex p3) = Rgb 200 200 200 \<and> {p_id p1, p_id p2, p_id p3} \<subseteq> vis \<longrightarrow>
      mset (map (\<lambda>c. mset (c_products c)) (renderNodes fl collate [p1, p2, p3] vis 15)) =
        {#{#p1, p2#}, {#p3#}#} \<and>
      map (\<lambda>c. mset (c_products c)) (renderNodes fl collate [p1, p2, p3] vis 400) =
        [{#p1, p2, p3#}])"
proof (intro conjI impI)
  show "renderNodes fl collate allProducts vis T =
     foldl (place fl T) [] (sorted_items collate allProducts vis)"
    by (simp add: renderNodes_def)
  show "sorted (map (\<lambda>it. collate (p_id (i_product it))) (sorted_items collate allProducts vis))"
    by (rule sorted_sorted_items)
  show "mset (sorted_items collate allProducts vis) =
     mset (map to_item (filter (\<lambda>p. p_id p \<in> vis) allProducts))"
    by (rule mset_sorted_items)
  show "to_item p = Item p (real (rgb_r (hexToRgb (p_hex p))))
      (real (rgb_g (hexToRgb (p_hex p)))) (real (rgb_b (hexToRgb (p_hex p))))"
    by (simp add: to_item_def Let_def)
  show "distance fl c it =
     fl (sqrt (fl (fl (fl (fl (c_x c - i_x it) * fl (c_x c - i_x it))
                     + fl (fl (c_y c - i_y it) * fl (c_y c - i_y it)))
                 + fl (fl (c_z c - i_z it) * fl (c_z c - i_z it)))))"
    by (simp add: distance_def Let_def)
next
  assume "\<forall>c\<in>set cs. \<not> distance fl c it < T"
  then show "place fl T cs it = cs @ [Cluster [i_product it] (i_x it) (i_y it) (i_z it)]"
    by (rule place_new)
next
  assume "i < length cs \<and> distance fl (cs ! i) it < T \<and>
    (\<forall>j<i. \<not> distance fl (cs ! j) it < T)"
  then have "place fl T cs it = cs[i := absorb fl (cs ! i) it]"
    by (simp add: place_first)
  then show "place fl T cs it =
        cs[i := Cluster (c_products (cs ! i) @ [i_product it])
                 (fl (fl (fl (c_x (cs ! i) * fl (real (length (c_products (cs ! i)) + 1) - 1))
                          + i_x it) / real (length (c_products (cs ! i)) + 1)))
                 (fl (fl (fl (c_y (cs ! i) * fl (real (length (c_products (cs ! i)) + 1) - 1))
                          + i_y it) / real (length (c_products (cs ! i)) + 1)))
                 (fl (fl (fl (c_z (cs ! i) * fl (real (length (c_products (cs ! i)) + 1) - 1))
                          + i_z it) / real (length (c_products (cs ! i)) + 1)))]"
    by (simp add: absorb_def mean_with_def Let_def)
next
  assume h: "between_integers fl \<and>
    hexToRgb (p_hex p1) = Rgb 0 0 0 \<and> hexToRgb (p_hex p2) = Rgb 2 2 2 \<and>
    hexToRgb (p_hex p3) = Rgb 200 200 200 \<and> {p_id p1, p_id p2, p_id p3} \<subseteq> vis"
  then have b: "between_integers fl" by simp
  from h have s: "sorted_items collate [p1, p2, p3] vis \<in>
     set (map (map (\<lambda>(p, v). Item p v v v))
       [[(p1, 0), (p2, 2), (p3, 200)], [(p1, 0), (p3, 200), (p2, 2)],
        [(p2, 2), (p1, 0), (p3, 200)], [(p2, 2), (p3, 200), (p1, 0)],
        [(p3, 200), (p1, 0), (p2, 2)], [(p3, 200), (p2, 2), (p1, 0)]])"
    by (intro scenario_items) simp_all
  from scenario_15 [OF b s]
  show "mset (map (\<lambda>c. mset (c_products c)) (renderNodes fl collate [p1, p2, p3] vis 15)) =
        {#{#p1, p2#}, {#p3#}#}"
    by (simp add: renderNodes_def)
  from scenario_400 [OF b s]
  show "map (\<lambda>c. mset (c_products c)) (renderNodes fl collate [p1, p2, p3] vis 400) =
        [{#p1, p2, p3#}]"
    by (simp add: renderNodes_def)
qed

lemma hexToRgb_samples:
  "hexToRgb ''#000000'' = Rgb 0 0 0" "hexToRgb ''#020202'' = Rgb 2 2 2"
  "hexToRgb ''#c8c8c8'' = Rgb 200 200 200" "hexToRgb ''#0a0000'' = Rgb 10 0 0"
  "hexToRgb ''#140000'' = Rgb 20 0 0" "hexToRgb ''#0a1420'' = Rgb 10 20 32"
  by (simp_all add: hexToRgb_def exec_hex6_def expand_shorthand_def strip_hash_def
      is_hex_digit_def parseInt16_def hex_digit_val_def)

text \<open>
  An instance with the rounding of binary64. The point of \<^verbatim>\<open>#0a1420\<close> is
  (10, 20, 32). At threshold 3 it is too far from the first cluster, at the origin, and
  joins the second, at (10, 20, 30), which moves to (10, 20, 31), although the third
  cluster, at (10, 20, 31), is nearer; at threshold 1 it opens a fourth cluster.
\<close>

theorem greedy_first_fit_witness:
  "between_integers round53 \<and>
   to_item (entry ''d'' ''#0a1420'') = Item (entry ''d'' ''#0a1420'') 10 20 32 \<and>
   \<not> distance round53 (Cluster [entry ''a'' ''#000000''] 0 0 0)
       (Item (entry ''d'' ''#0a1420'') 10 20 32) < 3 \<and>
   distance round53 (Cluster [entry ''b'' ''#0a141e''] 10 20 30)
       (Item (entry ''d'' ''#0a1420'') 10 20 32) = 2 \<and>
   distance round53 (Cluster [entry ''c'' ''#0a141f''] 10 20 31)
       (Item (entry ''d'' ''#0a1420'') 10 20 32) = 1 \<and>
   place round53 3
       [Cluster [entry ''a'' ''#000000''] 0 0 0, Cluster [entry ''b'' ''#0a141e''] 10 20 30,
        Cluster [entry ''c'' ''#0a141f''] 10 20 31]
       (Item (entry ''d'' ''#0a1420'') 10 20 32) =
     [Cluster [entry ''a'' ''#000000''] 0 0 0,
      Cluster [entry ''b'' ''#0a141e'', entry ''d'' ''#0a1420''] 10 20 31,
      Cluster [entry ''c'' ''#0a141f''] 10 20 31] \<and>
   place round53 1
       [Cluster [entry ''a'' ''#000000''] 0 0 0, Cluster [entry ''b'' ''#0a141e''] 10 20 30,
        Cluster [entry ''c'' ''#0a141f''] 10 20 31]
       (Item (entry ''d'' ''#0a1420'') 10 20 32) =
     [Cluster [entry ''a'' ''#000000''] 0 0 0, Cluster [entry ''b'' ''#0a141e''] 10 20 30,
      Cluster [entry ''c'' ''#0a141f''] 10 20 31, Cluster [entry ''d'' ''#0a1420''] 10 20 32] \<and>
   mset (map (\<lambda>c. mset (c_products c))
      (renderNodes round53 (\<lambda>s. s)
         [entry ''k1'' ''#000000'', entry ''k2'' ''#020202'', entry ''k3'' ''#c8c8c8'']
         {''k1'', ''k2'', ''k3''} 15)) =
     {#{#entry ''k1'' ''#000000'', entry ''k2'' ''#020202''#}, {#entry ''k3'' ''#c8c8c8''#}#} \<and>
   map (\<lambda>c. mset (c_products c))
      (renderNodes round53 (\<lambda>s. s)
         [entry ''k1'' ''#000000'', entry ''k2'' ''#020202'', entry ''k3'' ''#c8c8c8'']
         {''k1'', ''k2'', ''k3''} 400) =
     [{#entry ''k1'' ''#000000'', entry ''k2'' ''#020202'', entry ''k3'' ''#c8c8c8''#}]"
proof -
  let ?a = "Cluster [entry ''a'' ''#000000''] 0 0 0"
  let ?b = "Cluster [entry ''b'' ''#0a141e''] 10 20 30"
  let ?c = "Cluster [entry ''c'' ''#0a141f''] 10 20 31"
  let ?p = "entry ''d'' ''#0a1420''"
  let ?it = "Item ?p 10 20 32"
  note r = between_integers_round53
  note n = fl_numerals [OF r]
  note d = sample_distances [OF r]
  note t = greedy_first_fit [where fl = round53 and collate = "\<lambda>s::string. s"
      and cs = "[?a, ?b, ?c]" and it = ?it and p = ?p
      and ?p1.0 = "entry ''k1'' ''#000000''" and ?p2.0 = "entry ''k2'' ''#020202''"
      and ?p3.0 = "entry ''k3'' ''#c8c8c8''" and vis = "{''k1'', ''k2'', ''k3''}"]
  note c3 = conjunct2 [THEN conjunct2, THEN conjunct2]
  note c5 = c3 [THEN conjunct2, THEN conjunct2]
  have pt: "to_item ?p = ?it"
    using t [THEN c3, THEN conjunct1] by (simp add: entry_def hexToRgb_samples)
  have second: "1 < length [?a, ?b, ?c] \<and> distance round53 ([?a, ?b, ?c] ! 1) ?it < 3 \<and>
      (\<forall>j<1. \<not> distance round53 ([?a, ?b, ?c] ! j) ?it < 3)"
    by (simp add: d)
  have none: "\<forall>c\<in>set [?a, ?b, ?c]. \<not> distance round53 c ?it < 1"
    by (simp add: d)
  have hx: "between_integers round53 \<and>
      hexToRgb (p_hex (entry ''k1'' ''#000000'')) = Rgb 0 0 0 \<and>
      hexToRgb (p_hex (entry ''k2'' ''#020202'')) = Rgb 2 2 2 \<and>
      hexToRgb (p_hex (entry ''k3'' ''#c8c8c8'')) = Rgb 200 200 200 \<and>
      {p_id (entry ''k1'' ''#000000''), p_id (entry ''k2'' ''#020202''),
       p_id (entry ''k3'' ''#c8c8c8'')} \<subseteq> {''k1'', ''k2'', ''k3''}"
    by (simp add: entry_def hexToRgb_samples r)
  have p3: "place round53 3 [?a, ?b, ?c] ?it =
     [?a, Cluster [entry ''b'' ''#0a141e'', ?p] 10 20 31, ?c]"
    using t [where T = 3 and i = 1, THEN c5, THEN conjunct2, THEN conjunct1, THEN mp, OF second]
    by (simp add: n)
  have p1: "place round53 1 [?a, ?b, ?c] ?it = [?a, ?b, ?c, Cluster [?p] 10 20 32]"
    using t [where T = 1, THEN c5, THEN conjunct1, THEN mp, OF none] by simp
  note sc = t [THEN c5, THEN conjunct2, THEN conjunct2, THEN mp, OF hx]
  from r pt d(1,3,4) p3 p1 sc show ?thesis by (intro conjI) simp_all
qed

text \<open>
  When no two entries have ids that the collation compares as equal, supplying the same
  entries in another order gives the same clusters: the same members in the same order
  and the same centres, for every visible set and threshold.
\<close>

theorem renderNodes_order_independent:
  fixes collate :: "string \<Rightarrow> 'k::linorder"
  assumes "mset allProducts' = mset allProducts"
    and "distinct (map (\<lambda>p. collate (p_id p)) allProducts)"
  shows "renderNodes fl collate allProducts' vis T = renderNodes fl collate allProducts vis T"
  using sorted_items_order_independent [OF assms] by (simp add: renderNodes_def)

text \<open>Three entries, supplied in two orders.\<close>

theorem renderNodes_order_independent_witness:
  "mset [entry ''k2'' ''#140000'', entry ''k1'' ''#000000'', entry ''k3'' ''#0a0000''] =
     mset [entry ''k1'' ''#000000'', entry ''k2'' ''#140000'', entry ''k3'' ''#0a0000''] \<and>
   distinct (map (\<lambda>p. p_id p)
     [entry ''k1'' ''#000000'', entry ''k2'' ''#140000'', entry ''k3'' ''#0a0000'']) \<and>
   renderNodes round53 (\<lambda>s. s)
     [entry ''k2'' ''#140000'', entry ''k1'' ''#000000'', entry ''k3'' ''#0a0000''] UNIV 15 =
   renderNodes round53 (\<lambda>s. s)
     [entry ''k1'' ''#000000'', entry ''k2'' ''#140000'', entry ''k3'' ''#0a0000''] UNIV 15 \<and>
   map c_products (renderNodes round53 (\<lambda>s. s)
     [entry ''k1'' ''#000000'', entry ''k2'' ''#140000'', entry ''k3'' ''#0a0000''] UNIV 15) =
   [[entry ''k1'' ''#000000'', entry ''k3'' ''#0a0000''], [entry ''k2'' ''#140000'']]"
proof -
  let ?xs = "[entry ''k1'' ''#000000'', entry ''k2'' ''#140000'', entry ''k3'' ''#0a0000'']"
  let ?ys = "[entry ''k2'' ''#140000'', entry ''k1'' ''#000000'', entry ''k3'' ''#0a0000'']"
  have m: "mset ?ys = mset ?xs" by simp
  have d: "distinct (map (\<lambda>p. p_id p) ?xs)" by (simp add: entry_def)
  have r: "map c_products (renderNodes round53 (\<lambda>s. s) ?xs UNIV 15) =
      [[entry ''k1'' ''#000000'', entry ''k3'' ''#0a0000''], [entry ''k2'' ''#140000'']]"
    by (simp add: renderNodes_def sorted_items_def to_item_def hexToRgb_samples place_def
        distance_def absorb_def mean_with_def entry_def
        fl_numerals [OF between_integers_round53] red_distances [OF between_integers_round53])
  from renderNodes_order_independent [of ?ys ?xs "\<lambda>s. s" round53 UNIV 15, OF m d] m d r
  show ?thesis by simp
qed

text \<open>
  C2 at a failing input. Ids that differ as strings may still compare as equal, and the
  stable sort then keeps the order of arrival. The ids U+00C5 and A U+030A are different
  strings with the same key; entries at red 0 and 20 carry them, a third entry at red 10
  has another id, and at threshold 15 it joins whichever of the two arrived first: the
  same three entries, supplied in two orders, give different clusters, whenever rounding
  stays between the neighbouring integers.
\<close>

theorem arrival_order_changes_clusters:
  assumes "between_integers fl"
  shows
  "distinct (map p_id [entry [CHR 0xC3, CHR 0x85] ''#000000'',
      entry [CHR 0x41, CHR 0xCC, CHR 0x8A] ''#140000'', entry ''B'' ''#0a0000'']) \<and>
   mset [entry [CHR 0x41, CHR 0xCC, CHR 0x8A] ''#140000'',
      entry [CHR 0xC3, CHR 0x85] ''#000000'', entry ''B'' ''#0a0000''] =
   mset [entry [CHR 0xC3, CHR 0x85] ''#000000'',
      entry [CHR 0x41, CHR 0xCC, CHR 0x8A] ''#140000'', entry ''B'' ''#0a0000''] \<and>
   renderNodes fl canonical [entry [CHR 0xC3, CHR 0x85] ''#000000'',
      entry [CHR 0x41, CHR 0xCC, CHR 0x8A] ''#140000'', entry ''B'' ''#0a0000''] UNIV 15 =
     [Cluster [entry [CHR 0xC3, CHR 0x85] ''#000000'', entry ''B'' ''#0a0000''] 5 0 0,
      Cluster [entry [CHR 0x41, CHR 0xCC, CHR 0x8A] ''#140000''] 20 0 0] \<and>
   renderNodes fl canonical [entry [CHR 0x41, CHR 0xCC, CHR 0x8A] ''#140000'',
      entry [CHR 0xC3, CHR 0x85] ''#000000'', entry ''B'' ''#0a0000''] UNIV 15 =
     [Cluster [entry [CHR 0x41, CHR 0xCC, CHR 0x8A] ''#140000'', entry ''B'' ''#0a0000''] 15 0 0,
      Cluster [entry [CHR 0xC3, CHR 0x85] ''#000000''] 0 0 0]"
  by (simp add: renderNodes_def sorted_items_def to_item_def hexToRgb_samples place_def
      distance_def absorb_def mean_with_def entry_def fl_numerals [OF assms]
      red_distances [OF assms])

text \<open>The same two runs with the rounding of binary64.\<close>

theorem arrival_order_changes_clusters_witness:
  "between_integers round53 \<and>
   renderNodes round53 canonical [entry [CHR 0xC3, CHR 0x85] ''#000000'',
      entry [CHR 0x41, CHR 0xCC, CHR 0x8A] ''#140000'', entry ''B'' ''#0a0000''] UNIV 15 =
     [Cluster [entry [CHR 0xC3, CHR 0x85] ''#000000'', entry ''B'' ''#0a0000''] 5 0 0,
      Cluster [entry [CHR 0x41, CHR 0xCC, CHR 0x8A] ''#140000''] 20 0 0] \<and>
   renderNodes round53 canonical [entry [CHR 0x41, CHR 0xCC, CHR 0x8A] ''#140000'',
      entry [CHR 0xC3, CHR 0x85] ''#000000'', entry ''B'' ''#0a0000''] UNIV 15 =
     [Cluster [entry [CHR 0x41, CHR 0xCC, CHR 0x8A] ''#140000'', entry ''B'' ''#0a0000''] 15 0 0,
      Cluster [entry [CHR 0xC3, CHR 0x85] ''#000000''] 0 0 0]"
  using arrival_order_changes_clusters [OF between_integers_round53] between_integers_round53
  by blast

lemma hexToRgb_alpha_lengths:
  assumes "valid_hex h" and "length h - 1 \<in> {4, 5, 7, 8}"
  shows "hexToRgb h = Rgb 0 0 0"
proof -
  from assms(1) obtain ds where h: "h = CHR ''#'' # ds"
    by (auto simp: valid_hex_def split: list.splits)
  then have "strip_hash h = ds" by (simp add: strip_hash_def)
  with assms(2) h have "\<not> hex_pattern h"
    by (auto simp: hex_pattern_def)
  then show ?thesis by (rule hexToRgb_no_match)
qed

text \<open>An entity that the normalizer builds has a hex that passed the validation pattern.\<close>

lemma candidate_valid_hex:
  assumes "candidate h item = Inr (Some p)"
  shows "valid_hex (p_hex p)"
  using assms
  by (auto simp: candidate_def Let_def split: sum.splits option.splits if_splits)

text \<open>
  C10. A hex of 4, 5, 7 or 8 digits passes the validation pattern of the normalizer, and
  the hex utility does not decode it: it gives (0, 0, 0). An entry with such a hex is
  still mapped to a point, at the origin, and when it is visible it goes through the
  clustering and is a member of one of the resulting clusters.
\<close>

theorem undecoded_hex_plotted_at_origin:
  fixes collate :: "string \<Rightarrow> 'k::linorder"
  assumes "p_hex p = CHR ''#'' # ds" and "list_all is_hex_digit ds"
    and "length ds \<in> {4, 5, 7, 8}"
    and "p \<in> set allProducts" and "p_id p \<in> vis"
  shows "valid_hex (p_hex p) \<and> hexToRgb (p_hex p) = Rgb 0 0 0 \<and> to_item p = Item p 0 0 0 \<and>
    to_item p \<in> set (sorted_items collate allProducts vis) \<and>
    (\<exists>c\<in>set (renderNodes fl collate allProducts vis T). p \<in> set (c_products c))"
proof -
  from assms(1-3) have v: "valid_hex (p_hex p)"
    by (auto simp: valid_hex_def)
  from assms(1,3) have "length (p_hex p) - 1 \<in> {4, 5, 7, 8}" by simp
  with v have z: "hexToRgb (p_hex p) = Rgb 0 0 0"
    by (rule hexToRgb_alpha_lengths)
  then have it: "to_item p = Item p 0 0 0" by (simp add: to_item_def)
  from assms(4,5) have s: "to_item p \<in> set (sorted_items collate allProducts vis)"
    by (simp add: sorted_items_def)
  from assms(4,5) have "p \<in> members (renderNodes fl collate allProducts vis T)"
    by (simp add: members_renderNodes)
  then have "\<exists>c\<in>set (renderNodes fl collate allProducts vis T). p \<in> set (c_products c)"
    by (simp add: members_def)
  with v z it s show ?thesis by simp
qed

text \<open>
  A record with an eight-digit hex gives an entity; alone in the catalog, it is one
  cluster at the origin.
\<close>

lemma candidate_translucent:
  "candidate ascii_host translucent_record = Inr (Some translucent_entity)"
  by code_simp

theorem undecoded_hex_plotted_at_origin_witness:
  "candidate ascii_host translucent_record = Inr (Some translucent_entity) \<and>
   p_hex translucent_entity = ''#FF000080'' \<and>
   valid_hex ''#FF000080'' \<and> hexToRgb ''#FF000080'' = Rgb 0 0 0 \<and>
   to_item translucent_entity = Item translucent_entity 0 0 0 \<and>
   renderNodes round53 (\<lambda>s. s) [translucent_entity] {''t1''} 15 = [Cluster [translucent_entity] 0 0 0]"
proof -
  let ?p = translucent_entity
  have h: "p_hex ?p = CHR ''#'' # ''FF000080''" by (simp add: translucent_entity_def)
  have d: "list_all is_hex_digit ''FF000080''" by (simp add: is_hex_digit_def)
  have l: "length ''FF000080'' \<in> {4, 5, 7, 8 :: nat}" by simp
  have m: "?p \<in> set [?p]" by simp
  have i: "p_id ?p \<in> {''t1''}" by (simp add: translucent_entity_def)
  note t = undecoded_hex_plotted_at_origin [of ?p "''FF000080''" "[?p]" "{''t1''}"
      "\<lambda>s. s" round53 15, OF h d l m i]
  from t h have v: "valid_hex ''#FF000080''" and z: "hexToRgb ''#FF000080'' = Rgb 0 0 0"
    and it: "to_item ?p = Item ?p 0 0 0"
    by simp_all
  have "renderNodes round53 (\<lambda>s. s) [?p] {''t1''} 15 = [Cluster [?p] 0 0 0]"
    using it i by (simp add: renderNodes_def sorted_items_def place_def)
  with v z it h candidate_translucent show ?thesis by simp
qed

section \<open>Properties of the category classifier\<close>











lemma on_ascii_ascii_host: "on_ascii ascii_host"
  by (simp add: on_ascii_def ascii_host_def)

lemma on_ascii_toUpperCase: "on_ascii h \<Longrightarrow> ascii s \<Longrightarrow> toUpperCase h s = ascii_upper s"
  by (simp add: on_ascii_def)


lemma on_ascii_trim: "on_ascii h \<Longrightarrow> ascii s \<Longrightarrow> trim h s = ascii_trim s"
  by (simp add: on_ascii_def)







section \<open>Properties of the ingestion run\<close>

lemma found_append: "found (xs @ ys) = found xs @ found ys"
  by (induction xs rule: found.induct) simp_all

lemma found_report: "found (trace (report st)) = found (trace st)"
  by (simp add: report_def found_append)

lemma processedIds_report: "processedIds (report st) = processedIds st"
  by (simp add: report_def)

lemma candidate_no_fields:
  assumes "\<And>k. field item k = None"
  shows "candidate h item = Inr None"
  by (simp add: candidate_def assms lor_def or_default_def parseCategory_def upper_or_empty_def
      resolve_td_def resolve_hex_def present_def)

lemma candidate_falsy: "\<not> truthy (Some item) \<Longrightarrow> candidate h item = Inr None"
  by (cases item) (simp_all add: candidate_no_fields)

lemma found_emit:
  "found (trace (emit st c)) =
     found (trace st) @ firsts (processedIds st) (case c of None \<Rightarrow> [] | Some p \<Rightarrow> [p])"
  by (simp add: emit_def found_append split: option.splits)

lemma processedIds_emit:
  "processedIds (emit st c) = processedIds st \<union> (case c of None \<Rightarrow> {} | Some p \<Rightarrow> {p_id p})"
  by (auto simp: emit_def split: option.splits)

lemma firsts_append:
  "firsts seen (ps @ qs) = firsts seen ps @ firsts (seen \<union> p_id ` set ps) qs"
  by (induction ps arbitrary: seen) (simp_all add: insert_absorb)

lemma loop_body_throws:
  assumes "candidate h item = Inl e"
  shows "loop_body h st item = Inl e"
proof -
  from assms candidate_falsy [of item h] have "truthy (Some item)" by auto
  with assms show ?thesis by (simp add: loop_body_def)
qed

lemma loop_body_found:
  assumes "candidate h item = Inr c"
  shows "\<exists>st'. loop_body h st item = Inr st' \<and>
     found (trace st') = found (trace st) @ firsts (processedIds st) (cands h [item]) \<and>
     processedIds st' = processedIds st \<union> p_id ` set (cands h [item])"
proof (cases "truthy (Some item)")
  case False
  then have "candidate h item = Inr None" by (rule candidate_falsy)
  with False show ?thesis by (simp add: loop_body_def)
next
  case True
  with assms show ?thesis
    by (cases c) (simp_all add: loop_body_def found_report found_emit processedIds_report
        processedIds_emit)
qed

lemma cands_append: "cands h (xs @ ys) = cands h xs @ cands h ys"
  by (induction xs) (simp_all split: sum.splits option.splits)

text \<open>
  The loop hands over the first occurrences among the records that come before the
  first record that throws, and ends without an exception when no record throws.
\<close>

lemma process_items_found:
  "\<exists>st' r. process_items h st items = (st', r) \<and>
     found (trace st') = found (trace st) @
       firsts (processedIds st) (cands h (takeWhile (\<lambda>x. \<not> isl (candidate h x)) items)) \<and>
     (r = None \<longleftrightarrow> (\<forall>x\<in>set items. \<not> isl (candidate h x)))"
proof (induction items arbitrary: st)
  case Nil
  then show ?case by simp
next
  case (Cons item items)
  show ?case
  proof (cases "candidate h item")
    case (Inl e)
    then show ?thesis by (simp add: loop_body_throws)
  next
    case (Inr c)
    from loop_body_found [OF Inr, of st] obtain st1 where
      b: "loop_body h st item = Inr st1"
      and f: "found (trace st1) = found (trace st) @ firsts (processedIds st) (cands h [item])"
      and i: "processedIds st1 = processedIds st \<union> p_id ` set (cands h [item])"
      by blast
    from Cons.IH [of st1] obtain st' r where
      p: "process_items h st1 items = (st', r)"
      and f': "found (trace st') = found (trace st1) @
         firsts (processedIds st1) (cands h (takeWhile (\<lambda>x. \<not> isl (candidate h x)) items))"
      and r: "r = None \<longleftrightarrow> (\<forall>x\<in>set items. \<not> isl (candidate h x))"
      by blast
    let ?ok = "\<lambda>x. \<not> isl (candidate h x)"
    from Inr have tw: "takeWhile ?ok (item # items) = item # takeWhile ?ok items"
      by simp
    have ca: "cands h (item # takeWhile ?ok items) = cands h [item] @ cands h (takeWhile ?ok items)"
      using cands_append [of h "[item]" "takeWhile ?ok items"] by simp
    from b p have pi: "process_items h st (item # items) = (st', r)"
      by simp
    have fnd: "found (trace st') = found (trace st) @
        firsts (processedIds st) (cands h (takeWhile ?ok (item # items)))"
      unfolding tw ca f' f i firsts_append by simp
    from r Inr have rr: "r = None \<longleftrightarrow> (\<forall>x\<in>set (item # items). ?ok x)"
      by simp
    from pi fnd rr show ?thesis by blast
  qed
qed

lemma filter_firsts:
  "filter (\<lambda>e. p_id e = k) (firsts seen ps) =
     (if k \<in> seen then [] else take 1 (filter (\<lambda>e. p_id e = k) ps))"
proof (induction ps arbitrary: seen)
  case Nil
  then show ?case by simp
next
  case (Cons p ps)
  show ?case
  proof (cases "p_id p \<in> seen")
    case True
    then show ?thesis by (auto simp: Cons.IH)
  next
    case False
    then show ?thesis by (auto simp: Cons.IH)
  qed
qed

lemma run_outcome:
  "fetchPolymakerData h None None None = ([Progress Connecting 0], Inl UnableToConnect)"
  "fetchJsonRobust a d c = Inr raw \<Longrightarrow> findArrayInObject raw = None \<or> findArrayInObject raw = Some [] \<Longrightarrow>
     fetchPolymakerData h a d c = ([Progress Connecting 0], Inl NoProductList)"
  by (auto simp: fetchPolymakerData_def fetchJsonRobust_def)

lemma run_found:
  assumes "fetchJsonRobust a d c = Inr raw" and "findArrayInObject raw = Some items"
  shows "found (fst (fetchPolymakerData h a d c)) =
     firsts {} (cands h (takeWhile (\<lambda>x. \<not> isl (candidate h x)) items))"
proof (cases "items = []")
  case True
  with assms show ?thesis by (simp add: fetchPolymakerData_def)
next
  case False
  let ?st0 = "\<lparr>emitted_count = 0, processedIds = {},
      trace = [Progress Connecting 0, Progress (Processing (length items)) 0]\<rparr>"
  from process_items_found [of h ?st0 items] obtain st r where
    r: "process_items h ?st0 items = (st, r)"
    and f: "found (trace st) =
       firsts {} (cands h (takeWhile (\<lambda>x. \<not> isl (candidate h x)) items))"
    by auto
  from assms False r f show ?thesis
    by (cases r) (simp_all add: fetchPolymakerData_def found_append)
qed

text \<open>What a run gives when no record throws.\<close>

lemma emitted_count_report: "emitted_count (report st) = emitted_count st"
  by (simp add: report_def)

lemma emitted_count_emit:
  "emitted_count (emit st c) =
     emitted_count st + length (firsts (processedIds st) (case c of None \<Rightarrow> [] | Some p \<Rightarrow> [p]))"
  by (simp add: emit_def split: option.splits)

lemma loop_body_count:
  assumes "loop_body h st item = Inr st'"
  shows "emitted_count st' = emitted_count st + length (firsts (processedIds st) (cands h [item]))"
proof (cases "truthy (Some item)")
  case False
  then have "candidate h item = Inr None" by (rule candidate_falsy)
  with False assms show ?thesis by (simp add: loop_body_def)
next
  case True
  with assms obtain c where "candidate h item = Inr c" "st' = report (emit st c)"
    by (auto simp: loop_body_def split: sum.splits)
  then show ?thesis
    by (cases c) (simp_all add: emitted_count_report emitted_count_emit)
qed

lemma process_items_count:
  assumes "\<forall>x\<in>set items. \<not> isl (candidate h x)"
    and "process_items h st items = (st', r)"
  shows "emitted_count st' = emitted_count st + length (firsts (processedIds st) (cands h items))"
  using assms
proof (induction items arbitrary: st)
  case Nil
  then show ?case by simp
next
  case (Cons item items)
  then obtain c where c: "candidate h item = Inr c"
    by (cases "candidate h item") auto
  from loop_body_found [OF c, of st] obtain st1 where
    b: "loop_body h st item = Inr st1"
    and i: "processedIds st1 = processedIds st \<union> p_id ` set (cands h [item])"
    by blast
  from Cons.prems b have p: "process_items h st1 items = (st', r)" by simp
  from Cons.prems have "\<forall>x\<in>set items. \<not> isl (candidate h x)" by simp
  from Cons.IH [OF this p] loop_body_count [OF b] i
  have "emitted_count st' = emitted_count st + length (firsts (processedIds st) (cands h [item]))
      + length (firsts (processedIds st \<union> p_id ` set (cands h [item])) (cands h items))"
    by simp
  moreover have "cands h (item # items) = cands h [item] @ cands h items"
    using cands_append [of h "[item]" items] by simp
  ultimately show ?case by (simp only: firsts_append length_append add.assoc)
qed

lemma run_outcome_without_throw:
  assumes "fetchJsonRobust a d c = Inr raw" and "findArrayInObject raw = Some items"
    and "items \<noteq> []" and "\<forall>x\<in>set items. \<not> isl (candidate h x)"
  shows "found (fst (fetchPolymakerData h a d c)) = firsts {} (cands h items) \<and>
     snd (fetchPolymakerData h a d c) =
       (if firsts {} (cands h items) = [] then Inl NoValidHex else Inr ())"
proof -
  let ?st0 = "\<lparr>emitted_count = 0, processedIds = {},
      trace = [Progress Connecting 0, Progress (Processing (length items)) 0]\<rparr>"
  from assms(4) have tw: "takeWhile (\<lambda>x. \<not> isl (candidate h x)) items = items"
    by (simp add: takeWhile_eq_all_conv)
  from process_items_found [of h ?st0 items] assms(4) obtain st where
    r: "process_items h ?st0 items = (st, None)"
    and f: "found (trace st) = firsts {} (cands h items)"
    unfolding tw by auto
  from process_items_count [OF assms(4) r]
  have n: "emitted_count st = length (firsts {} (cands h items))" by simp
  from assms(1-3) r f n show ?thesis
    by (simp add: fetchPolymakerData_def found_append)
qed

text \<open>
  Deduplication itself does what the specification says. Take a run whose strategy chain
  gave a response in which a record list was found, and a record of the list that
  normalizes to an entity, is the first of the list to normalize to that id, and has no
  record before it that throws. Then the run hands over exactly one entity with that id,
  the one from that record, whatever the later records are.
\<close>

lemma first_occurrence_handed_over:
  assumes "fetchJsonRobust tryAllOrigins tryDirect tryCorsProxy = Inr rawData"
    and "findArrayInObject rawData = Some (pre @ x # post)"
    and "\<forall>y\<in>set pre. \<not> isl (candidate h y)"
    and "candidate h x = Inr (Some p)"
    and "\<forall>y\<in>set pre. \<forall>q. candidate h y = Inr (Some q) \<longrightarrow> p_id q \<noteq> p_id p"
  shows "filter (\<lambda>e. p_id e = p_id p)
           (found (fst (fetchPolymakerData h tryAllOrigins tryDirect tryCorsProxy))) = [p]"
proof -
  let ?ok = "\<lambda>x. \<not> isl (candidate h x)"
  from assms(3,4) have "takeWhile ?ok (pre @ x # post) = pre @ x # takeWhile ?ok post"
    by (simp add: takeWhile_append2)
  then have c: "cands h (takeWhile ?ok (pre @ x # post)) =
      cands h pre @ p # cands h (takeWhile ?ok post)"
    using assms(4) cands_append [of h pre "x # takeWhile ?ok post"] by simp
  have "filter (\<lambda>e. p_id e = p_id p) (cands h pre) = []"
    using assms(5) by (induction pre) (auto split: sum.splits option.splits)
  with c have "take 1 (filter (\<lambda>e. p_id e = p_id p)
      (cands h (takeWhile ?ok (pre @ x # post)))) = [p]"
    by simp
  with run_found [OF assms(1,2), of h] show ?thesis
    by (simp add: filter_firsts)
qed

text \<open>The sample records.\<close>

lemma truthy_records:
  "truthy (Some unplottable_record)" "truthy (Some green_record)" "truthy (Some red_record)"
  "truthy (Some untyped_record)"
  by (simp_all add: unplottable_record_def green_record_def red_record_def untyped_record_def)

lemma candidate_untyped: "candidate h untyped_record = Inl TypeError"
  by (simp add: candidate_def untyped_record_def lor_def or_default_def parseCategory_def
      upper_or_empty_def)

lemma host_samples:
  assumes "on_ascii h"
  shows "toUpperCase h [] = []" "toUpperCase h ''X'' = ''X''"
    "toUpperCase h ''Unknown Product'' = ''UNKNOWN PRODUCT''"
    "trim h ''#FF0000'' = ''#FF0000''" "trim h ''#00FF00'' = ''#00FF00''" "trim h ''zzz'' = ''zzz''"
proof -
  have a: "ascii []" "ascii ''X''" "ascii ''Unknown Product''" "ascii ''#FF0000''"
    "ascii ''#00FF00''" "ascii ''zzz''"
    by code_simp+
  have u: "ascii_upper [] = []" "ascii_upper ''X'' = ''X''"
    "ascii_upper ''Unknown Product'' = ''UNKNOWN PRODUCT''"
    by code_simp+
  have t: "ascii_trim ''#FF0000'' = ''#FF0000''" "ascii_trim ''#00FF00'' = ''#00FF00''"
    "ascii_trim ''zzz'' = ''zzz''"
    by code_simp+
  from a u show "toUpperCase h [] = []" "toUpperCase h ''X'' = ''X''"
    "toUpperCase h ''Unknown Product'' = ''UNKNOWN PRODUCT''"
    by (simp_all add: on_ascii_toUpperCase [OF assms])
  from a t show "trim h ''#FF0000'' = ''#FF0000''" "trim h ''#00FF00'' = ''#00FF00''"
    "trim h ''zzz'' = ''zzz''"
    by (simp_all add: on_ascii_trim [OF assms])
qed

lemma category_other:
  "category_tests [] ''X'' = ''Other''" "category_tests [] ''UNKNOWN PRODUCT'' = ''Other''"
  by code_simp+

lemma valid_hex_samples:
  "valid_hex ''#FF0000''" "valid_hex ''#00FF00''" "\<not> valid_hex ''#zzz''"
  by code_simp+

lemma candidate_red:
  assumes "on_ascii h"
  shows "candidate h red_record = Inr (Some red_entity)"
  by (simp add: candidate_def red_record_def red_entity_def lor_def or_default_def
      parseCategory_def upper_or_empty_def resolve_td_def resolve_hex_def present_def
      make_id_def host_samples [OF assms] category_other valid_hex_samples)

lemma candidate_green:
  assumes "on_ascii h"
  shows "candidate h green_record = Inr (Some green_entity)"
  by (simp add: candidate_def green_record_def green_entity_def lor_def or_default_def
      parseCategory_def upper_or_empty_def resolve_td_def resolve_hex_def present_def
      make_id_def host_samples [OF assms] category_other valid_hex_samples)

lemma candidate_unplottable:
  assumes "on_ascii h"
  shows "candidate h unplottable_record = Inr None"
  by (simp add: candidate_def unplottable_record_def lor_def or_default_def
      parseCategory_def upper_or_empty_def resolve_td_def resolve_hex_def present_def
      host_samples [OF assms] category_other valid_hex_samples)

lemma run_samples:
  "fetchPolymakerData h (Some (JArr (untyped_record # items))) None None =
     ([Progress Connecting 0, Progress (Processing (Suc (length items))) 0], Inl TypeError)"
  "on_ascii h \<Longrightarrow> fetchPolymakerData h (Some (JArr [green_record])) None None =
     ([Progress Connecting 0, Progress (Processing 1) 0, ProductFound green_entity,
       Progress Done 1], Inr ())"
  "on_ascii h \<Longrightarrow> fetchPolymakerData h (Some (JArr [red_record, green_record])) None None =
     ([Progress Connecting 0, Progress (Processing 2) 0, ProductFound red_entity,
       Progress Done 1], Inr ())"
  by (simp_all add: fetchPolymakerData_def fetchJsonRobust_def findArrayInObject_def
      loop_body_def truthy_records candidate_untyped candidate_green candidate_red emit_def
      report_def red_entity_def green_entity_def)

text \<open>
  C5 at a failing input. The records red and green are both valid and normalize to the
  same id, 1; alone they give one entity, the red one. After a record whose product name
  is the number 5, which throws a TypeError in the classifier, the run stops before
  either of them is reached and hands over no entity with id 1.
\<close>

theorem throwing_record_hides_later_ids:
  "candidate h untyped_record = Inl TypeError \<and>
   fetchPolymakerData h (Some (JArr [untyped_record, red_record, green_record])) None None =
     ([Progress Connecting 0, Progress (Processing 3) 0], Inl TypeError) \<and>
   filter (\<lambda>e. p_id e = ''1'')
     (found (fst (fetchPolymakerData h
        (Some (JArr [untyped_record, red_record, green_record])) None None))) = [] \<and>
   (on_ascii h \<longrightarrow>
      candidate h red_record = Inr (Some red_entity) \<and>
      candidate h green_record = Inr (Some green_entity) \<and>
      p_id red_entity = ''1'' \<and> p_id green_entity = ''1'' \<and>
      fetchPolymakerData h (Some (JArr [red_record, green_record])) None None =
        ([Progress Connecting 0, Progress (Processing 2) 0, ProductFound red_entity,
          Progress Done 1], Inr ()))"
proof (intro conjI impI)
  show "candidate h untyped_record = Inl TypeError"
    by (rule candidate_untyped)
  show r: "fetchPolymakerData h (Some (JArr [untyped_record, red_record, green_record])) None None =
     ([Progress Connecting 0, Progress (Processing 3) 0], Inl TypeError)"
    using run_samples(1) [of h "[red_record, green_record]"] by (simp add: eval_nat_numeral)
  show "filter (\<lambda>e. p_id e = ''1'')
     (found (fst (fetchPolymakerData h
        (Some (JArr [untyped_record, red_record, green_record])) None None))) = []"
    by (simp add: r)
next
  assume a: "on_ascii h"
  show "candidate h red_record = Inr (Some red_entity)" by (rule candidate_red [OF a])
  show "candidate h green_record = Inr (Some green_entity)" by (rule candidate_green [OF a])
  show "p_id red_entity = ''1''" by (simp add: red_entity_def)
  show "p_id green_entity = ''1''" by (simp add: green_entity_def)
  show "fetchPolymakerData h (Some (JArr [red_record, green_record])) None None =
        ([Progress Connecting 0, Progress (Processing 2) 0, ProductFound red_entity,
          Progress Done 1], Inr ())"
    by (rule run_samples(3) [OF a])
qed

text \<open>The same runs on the ASCII host.\<close>

theorem throwing_record_hides_later_ids_witness:
  "on_ascii ascii_host \<and>
   candidate ascii_host red_record = Inr (Some red_entity) \<and>
   candidate ascii_host green_record = Inr (Some green_entity) \<and>
   p_id red_entity = ''1'' \<and> p_id green_entity = ''1'' \<and>
   fetchPolymakerData ascii_host (Some (JArr [red_record, green_record])) None None =
     ([Progress Connecting 0, Progress (Processing 2) 0, ProductFound red_entity,
       Progress Done 1], Inr ()) \<and>
   fetchPolymakerData ascii_host
       (Some (JArr [untyped_record, red_record, green_record])) None None =
     ([Progress Connecting 0, Progress (Processing 3) 0], Inl TypeError)"
  using throwing_record_hides_later_ids [of ascii_host] on_ascii_ascii_host by blast

text \<open>
  C6 at a failing input. A record whose product name is the number 5 throws a TypeError
  in the classifier, whatever the host; the run stops there, before the valid record that
  follows, with an error that is none of the three of the specification. Without the
  first record the run completes.
\<close>

theorem non_string_field_aborts_run:
  "candidate h untyped_record = Inl TypeError \<and>
   fetchPolymakerData h (Some (JArr [untyped_record, green_record])) None None =
     ([Progress Connecting 0, Progress (Processing 2) 0], Inl TypeError) \<and>
   (on_ascii h \<longrightarrow>
      fetchPolymakerData h (Some (JArr [green_record])) None None =
        ([Progress Connecting 0, Progress (Processing 1) 0, ProductFound green_entity,
          Progress Done 1], Inr ()))"
proof (intro conjI impI)
  show "candidate h untyped_record = Inl TypeError"
    by (rule candidate_untyped)
  show "fetchPolymakerData h (Some (JArr [untyped_record, green_record])) None None =
     ([Progress Connecting 0, Progress (Processing 2) 0], Inl TypeError)"
    using run_samples(1) [of h "[green_record]"] by (simp add: eval_nat_numeral)
next
  assume "on_ascii h"
  then show "fetchPolymakerData h (Some (JArr [green_record])) None None =
        ([Progress Connecting 0, Progress (Processing 1) 0, ProductFound green_entity,
          Progress Done 1], Inr ())"
    by (rule run_samples(2))
qed

theorem non_string_field_aborts_run_witness:
  "on_ascii ascii_host \<and>
   candidate ascii_host untyped_record = Inl TypeError \<and>
   fetchPolymakerData ascii_host (Some (JArr [untyped_record, green_record])) None None =
     ([Progress Connecting 0, Progress (Processing 2) 0], Inl TypeError) \<and>
   fetchPolymakerData ascii_host (Some (JArr [green_record])) None None =
     ([Progress Connecting 0, Progress (Processing 1) 0, ProductFound green_entity,
       Progress Done 1], Inr ())"
  using non_string_field_aborts_run [of ascii_host] on_ascii_ascii_host by blast

text \<open>
  C9, as the code has it. A falsy record (\<^verbatim>\<open>null\<close>, \<^verbatim>\<open>false\<close>, \<^verbatim>\<open>0\<close>, the empty
  string) is skipped: nothing changes and no callback is invoked. A record that throws
  ends the loop in the state it was reached in: no callback is invoked. After any other
  record, whether it handed over an entity or not (no usable hex, or an id already
  handed over), the progress callback is invoked with the running count of entities
  handed over, followed by the yield, exactly when that count is a multiple of 20, zero
  included.
\<close>

theorem progress_after_each_record:
  "(\<not> truthy (Some item) \<longrightarrow>
      loop_body h st item = Inr st \<and>
      process_items h st (item # items) = process_items h st items) \<and>
   (truthy (Some item) \<and> candidate h item = Inl e \<longrightarrow>
      loop_body h st item = Inl e \<and> process_items h st (item # items) = (st, Some e)) \<and>
   (truthy (Some item) \<and> candidate h item = Inr c \<longrightarrow>
      (let new = (case c of
                    None \<Rightarrow> []
                  | Some p \<Rightarrow> if p_id p \<in> processedIds st then [] else [ProductFound p]);
           n = emitted_count st + length new
       in \<exists>st'. loop_body h st item = Inr st' \<and>
            process_items h st (item # items) = process_items h st' items \<and>
            emitted_count st' = n \<and>
            trace st' = trace st @ new @
              (if n mod 20 = 0 then [Progress (Loaded n) n, Yield] else [])))"
proof (intro conjI impI)
  assume "\<not> truthy (Some item)"
  then show "loop_body h st item = Inr st" by (simp add: loop_body_def)
  then show "process_items h st (item # items) = process_items h st items" by simp
next
  assume "truthy (Some item) \<and> candidate h item = Inl e"
  then show "loop_body h st item = Inl e" by (simp add: loop_body_def)
  then show "process_items h st (item # items) = (st, Some e)" by simp
next
  assume a: "truthy (Some item) \<and> candidate h item = Inr c"
  then have b: "loop_body h st item = Inr (report (emit st c))"
    by (simp add: loop_body_def)
  show "let new = (case c of
                    None \<Rightarrow> []
                  | Some p \<Rightarrow> if p_id p \<in> processedIds st then [] else [ProductFound p]);
           n = emitted_count st + length new
       in \<exists>st'. loop_body h st item = Inr st' \<and>
            process_items h st (item # items) = process_items h st' items \<and>
            emitted_count st' = n \<and>
            trace st' = trace st @ new @
              (if n mod 20 = 0 then [Progress (Loaded n) n, Yield] else [])"
    unfolding b Let_def
    by (cases c) (simp_all add: b report_def emit_def)
qed

lemma loop_body_samples:
  "loop_body ascii_host (at_count 0) unplottable_record =
     Inr \<lparr>emitted_count = 0, processedIds = {}, trace = [Progress (Loaded 0) 0, Yield]\<rparr>"
  "loop_body ascii_host (at_count 19) green_record =
     Inr \<lparr>emitted_count = 20, processedIds = {''1''},
          trace = [ProductFound green_entity, Progress (Loaded 20) 20, Yield]\<rparr>"
  "loop_body ascii_host (at_count 0) green_record =
     Inr \<lparr>emitted_count = 1, processedIds = {''1''}, trace = [ProductFound green_entity]\<rparr>"
  by (simp_all add: loop_body_def truthy_records candidate_unplottable candidate_green
      on_ascii_ascii_host emit_def report_def at_count_def green_entity_def)

text \<open>
  On the ASCII host: the records \<^verbatim>\<open>null\<close>, \<^verbatim>\<open>0\<close>, \<^verbatim>\<open>false\<close> and the empty string
  at count 20 change nothing; the record that throws ends the loop where it is; a record
  without usable hex at count 0 reports; the twentieth entity reports; the first entity
  does not.
\<close>

theorem progress_after_each_record_witness:
  "loop_body ascii_host (at_count 20) JNull = Inr (at_count 20) \<and>
   loop_body ascii_host (at_count 20) (JNum ''0'') = Inr (at_count 20) \<and>
   loop_body ascii_host (at_count 20) (JBool False) = Inr (at_count 20) \<and>
   loop_body ascii_host (at_count 20) (JStr []) = Inr (at_count 20) \<and>
   truthy (Some untyped_record) \<and> candidate ascii_host untyped_record = Inl TypeError \<and>
   process_items ascii_host (at_count 20) [untyped_record, green_record] =
     (at_count 20, Some TypeError) \<and>
   truthy (Some unplottable_record) \<and> candidate ascii_host unplottable_record = Inr None \<and>
   (\<exists>st'. loop_body ascii_host (at_count 0) unplottable_record = Inr st' \<and>
      emitted_count st' = 0 \<and> trace st' = [Progress (Loaded 0) 0, Yield]) \<and>
   truthy (Some green_record) \<and> candidate ascii_host green_record = Inr (Some green_entity) \<and>
   (\<exists>st'. loop_body ascii_host (at_count 19) green_record = Inr st' \<and>
      emitted_count st' = 20 \<and>
      trace st' = [ProductFound green_entity, Progress (Loaded 20) 20, Yield]) \<and>
   (\<exists>st'. loop_body ascii_host (at_count 0) green_record = Inr st' \<and>
      emitted_count st' = 1 \<and> trace st' = [ProductFound green_entity]) \<and>
   loop_body ascii_host (at_count 0) unplottable_record =
     Inr \<lparr>emitted_count = 0, processedIds = {}, trace = [Progress (Loaded 0) 0, Yield]\<rparr> \<and>
   loop_body ascii_host (at_count 19) green_record =
     Inr \<lparr>emitted_count = 20, processedIds = {''1''},
          trace = [ProductFound green_entity, Progress (Loaded 20) 20, Yield]\<rparr>"
proof -
  note falsy = progress_after_each_record [where h = ascii_host and st = "at_count 20",
      THEN conjunct1, THEN mp, THEN conjunct1]
  note throws = progress_after_each_record [where h = ascii_host and st = "at_count 20"
      and item = untyped_record and items = "[green_record]" and e = TypeError,
      THEN conjunct2, THEN conjunct1, THEN mp, THEN conjunct2]
  note other = progress_after_each_record [where h = ascii_host and items = "[]",
      THEN conjunct2, THEN conjunct2, THEN mp]
  have f: "loop_body ascii_host (at_count 20) JNull = Inr (at_count 20)"
    "loop_body ascii_host (at_count 20) (JNum ''0'') = Inr (at_count 20)"
    "loop_body ascii_host (at_count 20) (JBool False) = Inr (at_count 20)"
    "loop_body ascii_host (at_count 20) (JStr []) = Inr (at_count 20)"
    by (rule falsy, simp)+
  have cu: "candidate ascii_host untyped_record = Inl TypeError"
    by (rule candidate_untyped)
  have t: "process_items ascii_host (at_count 20) [untyped_record, green_record] =
     (at_count 20, Some TypeError)"
    by (rule throws) (simp add: truthy_records cu)
  have cn: "candidate ascii_host unplottable_record = Inr None"
    by (rule candidate_unplottable [OF on_ascii_ascii_host])
  have cg: "candidate ascii_host green_record = Inr (Some green_entity)"
    by (rule candidate_green [OF on_ascii_ascii_host])
  have o1: "\<exists>st'. loop_body ascii_host (at_count 0) unplottable_record = Inr st' \<and>
      emitted_count st' = 0 \<and> trace st' = [Progress (Loaded 0) 0, Yield]"
    using other [of unplottable_record None "at_count 0"] truthy_records cn
    by (auto simp: at_count_def)
  have o2: "\<exists>st'. loop_body ascii_host (at_count 19) green_record = Inr st' \<and>
      emitted_count st' = 20 \<and>
      trace st' = [ProductFound green_entity, Progress (Loaded 20) 20, Yield]"
    using other [of green_record "Some green_entity" "at_count 19"] truthy_records cg
    by (auto simp: at_count_def)
  have o3: "\<exists>st'. loop_body ascii_host (at_count 0) green_record = Inr st' \<and>
      emitted_count st' = 1 \<and> trace st' = [ProductFound green_entity]"
    using other [of green_record "Some green_entity" "at_count 0"] truthy_records cg
    by (auto simp: at_count_def)
  from f cu t cn cg o1 o2 o3 truthy_records loop_body_samples show ?thesis
    by (intro conjI)
qed

text \<open>
  C9 as stated fails: a record without usable hex, before any entity was handed over, is
  followed by a progress invocation with count 0. The strings of the two records are
  ASCII, on which every host is the ASCII host.
\<close>

theorem progress_without_emission_counterexample:
  "fetchPolymakerData ascii_host (Some (JArr [unplottable_record, green_record])) None None =
     ([Progress Connecting 0, Progress (Processing 2) 0, Progress (Loaded 0) 0, Yield,
       ProductFound green_entity, Progress Done 1], Inr ())"
  by code_simp

end
